theory Spec2Isabelle
  imports Main
begin

section \<open>JavaScript values used by index.js\<close>

text \<open>
  Strings are byte lists. Every number that index.js turns into text (a port, an
  exit code, a status code, a date component) is an integer, and JavaScript prints an
  integer below 10^21 in plain decimal, with a leading minus sign when negative.
\<close>

definition digit_char :: "nat \<Rightarrow> char" where
  "digit_char d = ''0123456789'' ! d"

function nat_string :: "nat \<Rightarrow> string" where
  "nat_string n = (if n < 10 then [digit_char n] else nat_string (n div 10) @ [digit_char (n mod 10)])"
  by pat_completeness auto
termination
  by (relation "measure (\<lambda>n. n)") auto

definition number_string :: "int \<Rightarrow> string" where
  "number_string i = (if i < 0 then CHR ''-'' # nat_string (nat (- i)) else nat_string (nat i))"

text \<open>An exit code is a number, or null when the child was killed by a signal.\<close>

definition code_string :: "int option \<Rightarrow> string" where
  "code_string code = (case code of None \<Rightarrow> ''null'' | Some c \<Rightarrow> number_string c)"

text \<open>An optional string is truthy when it is present and not empty.\<close>

definition truthy :: "string option \<Rightarrow> bool" where
  "truthy v = (case v of None \<Rightarrow> False | Some s \<Rightarrow> s \<noteq> [])"

text \<open>\<open>new Error(message)\<close>, and the text JavaScript gives it inside a string concatenation.\<close>

datatype js_error = Error string

fun error_string :: "js_error \<Rightarrow> string" where
  "error_string (Error m) = ''Error: '' @ m"

text \<open>\<open>Array.prototype.join\<close> on strings.\<close>

fun join_with :: "string \<Rightarrow> string list \<Rightarrow> string" where
  "join_with sep [] = []"
| "join_with sep [x] = x"
| "join_with sep (x # y # ys) = x @ sep @ join_with sep (y # ys)"

text \<open>
  \<open>String.prototype.replace\<close> with a string pattern: the first occurrence only.
\<close>

fun replace_first :: "string \<Rightarrow> string \<Rightarrow> string \<Rightarrow> string" where
  "replace_first pat rep [] = (if pat = [] then rep else [])"
| "replace_first pat rep (c # cs) =
     (if take (length pat) (c # cs) = pat then rep @ drop (length pat) (c # cs)
      else c # replace_first pat rep cs)"

section \<open>getArchiveName\<close>

text \<open>What \<open>new Date()\<close> answers to the four getters that getArchiveName calls.\<close>

record js_date =
  getFullYear :: int
  getMonth :: int
  getDate :: int
  getTime :: int

definition getArchiveName :: "js_date \<Rightarrow> string \<Rightarrow> string" where
  "getArchiveName date databaseName =
     (let datestring =
        [databaseName,
         number_string (getFullYear date),
         number_string (getMonth date + 1),
         number_string (getDate date),
         number_string (getTime date)]
      in join_with ''_'' datestring @ ''.tar.gz'')"

section \<open>The world outside the program\<close>

text \<open>
  index.js computes almost nothing by itself: it asks the file system, the shell, child
  processes, the clock and the S3 client (knox), and reacts to what they answer. The
  answers are parameters of the model. An environment is a record of functions over an
  external world \<open>'w\<close> that the model never inspects; each call may change that world.
  A child process answers with the events it emits, in the order the event loop
  delivers them; an S3 response answers with its status code and its events; a
  download answers with the events of the response and of the file it is piped to.
  A handler runs to its end before the next event of the same source is delivered:
  what a callback starts (the next step of a pipeline, with all its events) comes
  before the events that the earlier source still has to deliver.
\<close>

datatype proc_event = StdoutData string | StderrData string | Exit "int option"

datatype res_event = Data string | End

datatype download_event = Res res_event | MkdirDone "js_error option" | FileClose

record 'e response =
  statusCode :: int
  events :: "'e list"

datatype knox_client = KnoxClient string string string

record 'w env =
  os_tmpDir :: string
  path_join :: "string \<Rightarrow> string \<Rightarrow> string"
  now :: "'w \<Rightarrow> js_date"
  fs_exists :: "string \<Rightarrow> 'w \<Rightarrow> bool"
  child_exec :: "string \<Rightarrow> 'w \<Rightarrow> js_error option \<times> 'w"
  child_spawn :: "string \<Rightarrow> string list \<Rightarrow> string option \<Rightarrow> 'w \<Rightarrow> proc_event list \<times> 'w"
  knox_putFile :: "knox_client \<Rightarrow> string \<Rightarrow> string \<Rightarrow> 'w \<Rightarrow> (js_error + res_event response) \<times> 'w"
  knox_getFile :: "knox_client \<Rightarrow> string \<Rightarrow> 'w \<Rightarrow> (js_error + download_event response) \<times> 'w"

text \<open>
  What the program does to the outside is recorded, in order, in a list of effects:
  the log lines, the requests to the environment, and the calls of the callback that
  the caller of an operation handed in (when that callback is \<open>report\<close> below).
\<close>

datatype effect =
    Logged string string
  | FsExists string
  | Exec string
  | Spawn string "string list" "string option"
  | PutFile knox_client string string
  | GetFile knox_client string
  | Mkdir string
  | CreateWriteStream string
  | Called "js_error option"

text \<open>
  The state threaded through every operation: the external world and the effects so
  far.
\<close>

record 'w state =
  world :: 'w
  out :: "effect list"

type_synonym 'w callback = "js_error option \<Rightarrow> 'w state \<Rightarrow> 'w state"

definition effect :: "effect \<Rightarrow> 'w state \<Rightarrow> 'w state" where
  "effect e s = s\<lparr>out := out s @ [e]\<rparr>"

text \<open>\<open>callback = callback || function() { }\<close>\<close>

definition or_noop :: "'w callback option \<Rightarrow> 'w callback" where
  "or_noop callback = (case callback of None \<Rightarrow> (\<lambda>err s. s) | Some f \<Rightarrow> f)"

text \<open>A callback that only records that it was called, and with what.\<close>

definition report :: "'w callback" where
  "report err s = effect (Called err) s"

text \<open>Handlers registered with \<open>.on\<close> run once for each event, in the order of the events.\<close>

fun deliver :: "('e \<Rightarrow> 'w state \<Rightarrow> 'w state) \<Rightarrow> 'e list \<Rightarrow> 'w state \<Rightarrow> 'w state" where
  "deliver handler [] s = s"
| "deliver handler (e # es) s = deliver handler es (handler e s)"

section \<open>log\<close>

text \<open>
  The second argument of \<open>log\<close> is absent, a string, or (twice in getFromS3) a number;
  \<open>tag || 'info'\<close> replaces a falsy one by info.
\<close>

datatype tag_arg = NoTag | Tag string | NumTag int

definition tag_or_info :: "tag_arg \<Rightarrow> string" where
  "tag_or_info tag =
     (case tag of
        NoTag \<Rightarrow> ''info''
      | Tag t \<Rightarrow> (if t = [] then ''info'' else t)
      | NumTag n \<Rightarrow> (if n = 0 then ''info'' else number_string n))"

text \<open>\<open>.replace(/(\n|\r|\r\n)$/, '')\<close>: one line ending is cut from the end.\<close>

definition strip_newline :: "string \<Rightarrow> string" where
  "strip_newline str =
     (case rev str of
        [] \<Rightarrow> []
      | c # cs \<Rightarrow>
          if c = CHR 0x0A then
            (case cs of
               [] \<Rightarrow> []
             | d # ds \<Rightarrow> if d = CHR 0x0D then rev ds else rev cs)
          else if c = CHR 0x0D then rev cs
          else str)"

text \<open>
  A log line is recorded with its tag and its text. The colour that cli-color wraps
  around the bracketed tag and the timestamp that util.log puts in front are left to
  those libraries; neither ends in a line break, so the cut applies to the message.
\<close>

definition log_line :: "string \<Rightarrow> tag_arg \<Rightarrow> effect" where
  "log_line message tag =
     (let t = tag_or_info tag
      in Logged t (strip_newline (''['' @ t @ ''] '' @ message)))"

definition log :: "string \<Rightarrow> tag_arg \<Rightarrow> 'w state \<Rightarrow> 'w state" where
  "log message tag s = effect (log_line message tag) s"

section \<open>removeRF\<close>

definition removeRF :: "'w env \<Rightarrow> string \<Rightarrow> 'w callback option \<Rightarrow> 'w state \<Rightarrow> 'w state" where
  "removeRF env target callback s =
     (let cb = or_noop callback;
          s1 = effect (FsExists target) s
      in if \<not> fs_exists env target (world s1) then cb None s1
         else
           let s2 = log (''Removing '' @ target) (Tag ''warn'') s1;
               cmd = ''rm -rf '' @ target;
               (err, w) = child_exec env cmd (world s2)
           in cb err ((effect (Exec cmd) s2)\<lparr>world := w\<rparr>))"

section \<open>mongoDump\<close>

record mongo_options =
  host :: string
  port :: int
  username :: "string option"
  password :: "string option"
  db :: string

fun mongodump_on :: "'w callback \<Rightarrow> proc_event \<Rightarrow> 'w state \<Rightarrow> 'w state" where
  "mongodump_on callback (StdoutData data) s = log data NoTag s"
| "mongodump_on callback (StderrData data) s = log data (Tag ''error'') s"
| "mongodump_on callback (Exit code) s =
     (if code = Some 0 then
        callback None (log ''mongodump executed successfully'' (Tag ''info'') s)
      else callback (Some (Error (''Mongodump exited with code '' @ code_string code))) s)"

definition mongoDumpOptions :: "mongo_options \<Rightarrow> string \<Rightarrow> string list" where
  "mongoDumpOptions options directory =
     (let mongoOptions =
        [''-h'', host options @ '':'' @ number_string (port options),
         ''-d'', db options,
         ''-o'', directory]
      in if truthy (username options) \<and> truthy (password options) then
           mongoOptions @ [''-u''] @ [the (username options)] @ [''-p''] @ [the (password options)]
         else mongoOptions)"

definition mongoDump ::
  "'w env \<Rightarrow> mongo_options \<Rightarrow> string \<Rightarrow> 'w callback option \<Rightarrow> 'w state \<Rightarrow> 'w state" where
  "mongoDump env options directory callback s =
     (let cb = or_noop callback;
          mongoOptions = mongoDumpOptions options directory;
          s1 = log (''Starting mongodump of '' @ db options) (Tag ''info'') s;
          (evs, w) = child_spawn env ''mongodump'' mongoOptions None (world s1)
      in deliver (mongodump_on cb) evs
           ((effect (Spawn ''mongodump'' mongoOptions None) s1)\<lparr>world := w\<rparr>))"

section \<open>compressDirectory\<close>

text \<open>Only the standard error of this child has a listener.\<close>

fun compress_on :: "'w callback \<Rightarrow> proc_event \<Rightarrow> 'w state \<Rightarrow> 'w state" where
  "compress_on callback (StdoutData data) s = s"
| "compress_on callback (StderrData data) s = log data (Tag ''error'') s"
| "compress_on callback (Exit code) s =
     (if code = Some 0 then
        callback None (log ''successfully compress directory'' (Tag ''info'') s)
      else callback (Some (Error (''Tar exited with code '' @ code_string code))) s)"

definition compressDirectory ::
  "'w env \<Rightarrow> string \<Rightarrow> string \<Rightarrow> string \<Rightarrow> 'w callback option \<Rightarrow> 'w state \<Rightarrow> 'w state" where
  "compressDirectory env directory input output callback s =
     (let cb = or_noop callback;
          tarOptions = [''-zcf'', output, input];
          s1 = log (''Starting compression of '' @ input @ '' into '' @ output) (Tag ''info'') s;
          (evs, w) = child_spawn env ''tar'' tarOptions (Some directory) (world s1)
      in deliver (compress_on cb) evs
           ((effect (Spawn ''tar'' tarOptions (Some directory)) s1)\<lparr>world := w\<rparr>))"

section \<open>sendToS3\<close>

record s3_options =
  key :: string
  secret :: string
  bucket :: string
  destination :: "string option"

fun upload_on :: "'w callback \<Rightarrow> int \<Rightarrow> res_event \<Rightarrow> 'w state \<Rightarrow> 'w state" where
  "upload_on callback status (Data chunk) s =
     (if status \<noteq> 200 then log chunk (Tag ''error'') s else log chunk NoTag s)"
| "upload_on callback status End s =
     (if status \<noteq> 200 then
        callback (Some (Error (''Expected a 200 response from S3, got '' @ number_string status))) s
      else callback None (log ''Successfully uploaded to s3'' NoTag s))"

definition sendToS3 ::
  "'w env \<Rightarrow> s3_options \<Rightarrow> string \<Rightarrow> string \<Rightarrow> 'w callback option \<Rightarrow> 'w state \<Rightarrow> 'w state" where
  "sendToS3 env options directory target callback s =
     (let sourceFile = path_join env directory target;
          dest = (if truthy (destination options) then the (destination options) else ''/'');
          cb = or_noop callback;
          s3client = KnoxClient (key options) (secret options) (bucket options);
          s1 = log (''Attemping to upload '' @ target @ '' to the '' @ bucket options @ '' s3 bucket'')
                 NoTag s;
          remote = path_join env dest target;
          (result, w) = knox_putFile env s3client sourceFile remote (world s1);
          s2 = (effect (PutFile s3client sourceFile remote) s1)\<lparr>world := w\<rparr>
      in case result of
           Inl err \<Rightarrow> cb (Some err) s2
         | Inr res \<Rightarrow> deliver (upload_on cb (statusCode res)) (events res) s2)"

section \<open>getFromS3\<close>

fun download_on :: "'w callback \<Rightarrow> int \<Rightarrow> download_event \<Rightarrow> 'w state \<Rightarrow> 'w state" where
  "download_on callback status (Res (Data chunk)) s =
     log ''bytes received '' (NumTag (int (length chunk))) s"
| "download_on callback status (MkdirDone err) s =
     (case err of
        Some e \<Rightarrow> log (''Error in getFromS3: '' @ error_string e) (Tag ''error'') s
      | None \<Rightarrow> s)"
| "download_on callback status (Res End) s =
     (if status \<noteq> 200 then
        callback (Some (Error (''Expected a 200 response from S3, got '' @ number_string status))) s
      else log ''FILE FULLY DOWNLOADED'' NoTag s)"
| "download_on callback status FileClose s =
     callback None (log ''FILE FULLY WRITTEN TO DISK'' NoTag s)"

definition getFromS3 ::
  "'w env \<Rightarrow> s3_options \<Rightarrow> string \<Rightarrow> string \<Rightarrow> 'w callback option \<Rightarrow> 'w state \<Rightarrow> 'w state" where
  "getFromS3 env s3config target dest callback s =
     (let cb = or_noop callback;
          s3client = KnoxClient (key s3config) (secret s3config) (bucket s3config);
          s1 = log (''Attempting to download '' @ target @ '' from '' @ '' bucket '' @ bucket s3config)
                 NoTag s;
          (result, w) = knox_getFile env s3client target (world s1);
          s2 = (effect (GetFile s3client target) s1)\<lparr>world := w\<rparr>
      in case result of
           Inl err \<Rightarrow>
             cb (Some (Error ''Error when downloading'')) (log (error_string err) NoTag s2)
         | Inr res \<Rightarrow>
             let s3 = log ''Status '' (NumTag (statusCode res)) s2;
                 s4 = log (''SAVING FILE to'' @ dest) NoTag s3;
                 s5 = effect (Mkdir (replace_first target [] dest)) s4;
                 s6 = effect (CreateWriteStream dest) s5
             in deliver (download_on cb (statusCode res)) (events res) s6)"

section \<open>uncompressArchive\<close>

fun uncompress_on :: "'w callback \<Rightarrow> proc_event \<Rightarrow> 'w state \<Rightarrow> 'w state" where
  "uncompress_on callback (StdoutData data) s = log data NoTag s"
| "uncompress_on callback (StderrData data) s = log data (Tag ''error'') s"
| "uncompress_on callback (Exit code) s =
     (if code = Some 0 then
        callback None (log ''successfully uncompressed archive'' (Tag ''info'') s)
      else callback (Some (Error (''Tar exited with code '' @ code_string code))) s)"

definition uncompressArchive ::
  "'w env \<Rightarrow> string \<Rightarrow> string \<Rightarrow> 'w callback option \<Rightarrow> 'w state \<Rightarrow> 'w state" where
  "uncompressArchive env input output callback s =
     (let cb = or_noop callback;
          tarOptions = [''-zxvf'', input];
          s1 = log (''Starting decompression of '' @ input @ '' into '' @ output) (Tag ''info'') s;
          (evs, w) = child_spawn env ''tar'' tarOptions (Some output) (world s1)
      in deliver (uncompress_on cb) evs
           ((effect (Spawn ''tar'' tarOptions (Some output)) s1)\<lparr>world := w\<rparr>))"

section \<open>mongoRestore\<close>

fun mongorestore_on :: "'w callback \<Rightarrow> proc_event \<Rightarrow> 'w state \<Rightarrow> 'w state" where
  "mongorestore_on callback (StdoutData data) s = log data NoTag s"
| "mongorestore_on callback (StderrData data) s = log data (Tag ''error'') s"
| "mongorestore_on callback (Exit code) s =
     (if code = Some 0 then
        callback None (log ''mongorestore executed successfully'' (Tag ''info'') s)
      else callback (Some (Error (''Mongorestore exited with code '' @ code_string code))) s)"

definition mongoRestoreOptions :: "mongo_options \<Rightarrow> string \<Rightarrow> string list" where
  "mongoRestoreOptions options backupDir =
     (let mongoOptions =
        [''-h'', host options @ '':'' @ number_string (port options),
         ''-d'', db options,
         ''--drop'',
         backupDir]
      in if truthy (username options) \<and> truthy (password options) then
           mongoOptions @ [''-u''] @ [the (username options)] @ [''-p''] @ [the (password options)]
         else mongoOptions)"

definition mongoRestore ::
  "'w env \<Rightarrow> mongo_options \<Rightarrow> string \<Rightarrow> 'w callback option \<Rightarrow> 'w state \<Rightarrow> 'w state" where
  "mongoRestore env options backupDir callback s =
     (let cb = or_noop callback;
          mongoOptions = mongoRestoreOptions options backupDir;
          s1 = log (''Starting mongorestore of '' @ db options) (Tag ''info'') s;
          (evs, w) = child_spawn env ''mongorestore'' mongoOptions None (world s1)
      in deliver (mongorestore_on cb) evs
           ((effect (Spawn ''mongorestore'' mongoOptions None) s1)\<lparr>world := w\<rparr>))"

section \<open>The step sequencer\<close>

text \<open>
  Modelled from the spec: \<open>async.series\<close>, the sequencer of the third-party library
  async, which is not among the sources. The specification gives it three rules: a
  step starts when the step before it reports success; a step that reports a failure
  hands its error to the final callback, and that report starts no further step; the
  last step's report of success calls the final callback with no error. The
  specification says nothing about a step that reports more than once, and the model
  adds nothing for it: every report of a step is handled by these same rules.
\<close>

type_synonym 'w task = "'w callback option \<Rightarrow> 'w state \<Rightarrow> 'w state"

fun series_from :: "'w task list \<Rightarrow> 'w callback \<Rightarrow> 'w state \<Rightarrow> 'w state" where
  "series_from [] final s = final None s"
| "series_from (t # ts) final s =
     t (Some (\<lambda>err s'.
          case err of
            Some e \<Rightarrow> final (Some e) s'
          | None \<Rightarrow> series_from ts final s')) s"

definition series :: "'w task list \<Rightarrow> 'w callback option \<Rightarrow> 'w state \<Rightarrow> 'w state" where
  "series tasks callback s = series_from tasks (or_noop callback) s"

section \<open>sync and restoreFromS3\<close>

definition sync ::
  "'w env \<Rightarrow> mongo_options \<Rightarrow> s3_options \<Rightarrow> 'w callback option \<Rightarrow> 'w state \<Rightarrow> 'w state" where
  "sync env mongodbConfig s3Config callback s =
     (let tmpDir = path_join env (os_tmpDir env) ''mongodb_s3_backup'';
          backupDir = path_join env tmpDir (db mongodbConfig);
          archiveName = getArchiveName (now env (world s)) (db mongodbConfig);
          cb = or_noop callback
      in series
           [removeRF env backupDir,
            removeRF env (path_join env tmpDir archiveName),
            mongoDump env mongodbConfig tmpDir,
            compressDirectory env tmpDir (db mongodbConfig) archiveName,
            sendToS3 env s3Config tmpDir archiveName]
           (Some (\<lambda>err s'.
              cb err
                (case err of
                   Some e \<Rightarrow> log (error_string e) (Tag ''error'') s'
                 | None \<Rightarrow> log (''Successfully backed up '' @ db mongodbConfig) NoTag s')))
           s)"

definition restoreFromS3 ::
  "'w env \<Rightarrow> mongo_options \<Rightarrow> s3_options \<Rightarrow> string \<Rightarrow> 'w callback option \<Rightarrow> 'w state \<Rightarrow> 'w state" where
  "restoreFromS3 env mongodbConfig s3Config remoteFilename callback s =
     (let tmpDir = path_join env (os_tmpDir env) ''mongodb_s3_backup'';
          backupDir = path_join env tmpDir (db mongodbConfig);
          cb = or_noop callback
      in series
           [removeRF env tmpDir,
            getFromS3 env s3Config remoteFilename (path_join env tmpDir remoteFilename),
            uncompressArchive env (path_join env tmpDir remoteFilename) tmpDir,
            mongoRestore env mongodbConfig backupDir]
           (Some (\<lambda>err s'.
              cb err
                (case err of
                   Some e \<Rightarrow> log (error_string e) (Tag ''error'') s'
                 | None \<Rightarrow> log (''Successfully Restored '' @ db mongodbConfig) NoTag s')))
           s)"

section \<open>Observing a run\<close>

text \<open>
  The definitions of this section are not part of index.js: they read the list of
  effects of a run, or spell out what a claim expects to find there.
\<close>

definition effects :: "effect list \<Rightarrow> 'w state \<Rightarrow> 'w state" where
  "effects es s = s\<lparr>out := out s @ es\<rparr>"

definition start :: "'w \<Rightarrow> 'w state" where
  "start w = \<lparr>world = w, out = []\<rparr>"

fun call_of :: "effect \<Rightarrow> js_error option list" where
  "call_of (Called r) = [r]"
| "call_of e = []"

definition calls :: "effect list \<Rightarrow> js_error option list" where
  "calls es = concat (map call_of es)"

fun line_of :: "effect \<Rightarrow> (string \<times> string) list" where
  "line_of (Logged t x) = [(t, x)]"
| "line_of e = []"

definition log_lines :: "effect list \<Rightarrow> (string \<times> string) list" where
  "log_lines es = concat (map line_of es)"

fun code_of :: "proc_event \<Rightarrow> int option list" where
  "code_of (Exit c) = [c]"
| "code_of e = []"

definition exit_codes :: "proc_event list \<Rightarrow> int option list" where
  "exit_codes evs = concat (map code_of evs)"

text \<open>The name of a command with its first letter in upper case, as the error messages spell it.\<close>

definition upper_char :: "char \<Rightarrow> char" where
  "upper_char c =
     (case map_of (zip ''abcdefghijklmnopqrstuvwxyz'' ''ABCDEFGHIJKLMNOPQRSTUVWXYZ'') c of
        Some u \<Rightarrow> u
      | None \<Rightarrow> c)"

fun capitalize :: "string \<Rightarrow> string" where
  "capitalize [] = []"
| "capitalize (c # cs) = upper_char c # cs"

text \<open>
  The effects of one event of a child process, when the callback is \<open>report\<close>:
  \<open>listens\<close> says whether the standard output has a listener.
\<close>

definition exit_trace :: "string \<Rightarrow> string \<Rightarrow> int option \<Rightarrow> effect list" where
  "exit_trace name success c =
     (if c = Some 0 then [log_line success (Tag ''info''), Called None]
      else [Called (Some (Error (name @ '' exited with code '' @ code_string c)))])"

fun runner_trace :: "bool \<Rightarrow> string \<Rightarrow> string \<Rightarrow> proc_event \<Rightarrow> effect list" where
  "runner_trace listens name success (StdoutData d) = (if listens then [log_line d NoTag] else [])"
| "runner_trace listens name success (StderrData d) = [log_line d (Tag ''error'')]"
| "runner_trace listens name success (Exit c) = exit_trace name success c"

text \<open>The log lines expected for one event of a child process.\<close>

definition logged_for :: "bool \<Rightarrow> string \<Rightarrow> proc_event \<Rightarrow> (string \<times> string) list" where
  "logged_for listens success e =
     (case e of
        StdoutData d \<Rightarrow> (if listens then [(''info'', strip_newline (''[info] '' @ d))] else [])
      | StderrData d \<Rightarrow> [(''error'', strip_newline (''[error] '' @ d))]
      | Exit c \<Rightarrow> (if c = Some 0 then [(''info'', strip_newline (''[info] '' @ success))] else []))"

text \<open>The effects expected for one event of the response to an upload.\<close>

definition upload_expected :: "int \<Rightarrow> res_event \<Rightarrow> effect list" where
  "upload_expected status e =
     (case e of
        Data chunk \<Rightarrow>
          (if status \<noteq> 200 then [Logged ''error'' (strip_newline (''[error] '' @ chunk))]
           else [Logged ''info'' (strip_newline (''[info] '' @ chunk))])
      | End \<Rightarrow>
          (if status \<noteq> 200 then
             [Called (Some (Error (''Expected a 200 response from S3, got '' @ number_string status)))]
           else [Logged ''info'' (strip_newline ''[info] Successfully uploaded to s3''), Called None]))"

text \<open>The effects of one event of a download, when the callback is \<open>report\<close>.\<close>

definition download_expected :: "int \<Rightarrow> download_event \<Rightarrow> effect list" where
  "download_expected status e =
     (case e of
        Res (Data chunk) \<Rightarrow> [log_line ''bytes received '' (NumTag (int (length chunk)))]
      | Res End \<Rightarrow>
          (if status \<noteq> 200 then
             [Called (Some (Error (''Expected a 200 response from S3, got '' @ number_string status)))]
           else [Logged ''info'' (strip_newline ''[info] FILE FULLY DOWNLOADED'')])
      | MkdirDone err \<Rightarrow>
          (case err of
             Some x \<Rightarrow> [Logged ''error'' (strip_newline (''[error] Error in getFromS3: '' @ error_string x))]
           | None \<Rightarrow> [])
      | FileClose \<Rightarrow> [Logged ''info'' (strip_newline ''[info] FILE FULLY WRITTEN TO DISK''), Called None])"

text \<open>
  An environment to run the model on concrete inputs. Its world is the list of the
  paths that exist; joining two paths puts a slash between them; \<open>rm -rf\<close> succeeds and
  removes the path it is given; every child process emits the events \<open>procs\<close> gives
  for its command, and the S3 client answers \<open>put\<close> to an upload and \<open>get\<close> to a
  download.
\<close>

definition example_env ::
  "(string \<Rightarrow> proc_event list) \<Rightarrow> (js_error + res_event response) \<Rightarrow>
   (js_error + download_event response) \<Rightarrow> string list env" where
  "example_env procs put get =
     \<lparr>os_tmpDir = ''/tmp'',
      path_join = (\<lambda>a b. a @ ''/'' @ b),
      now = (\<lambda>w. \<lparr>getFullYear = 2026, getMonth = 10, getDate = 3, getTime = 17\<rparr>),
      fs_exists = (\<lambda>p w. p \<in> set w),
      child_exec = (\<lambda>cmd w. (None, removeAll (drop 7 cmd) w)),
      child_spawn = (\<lambda>cmd args cwd w. (procs cmd, w)),
      knox_putFile = (\<lambda>client src dst w. (put, w)),
      knox_getFile = (\<lambda>client target w. (get, w))\<rparr>"

text \<open>
  One state extends another when its effects are those of the other followed by more;
  a callback is appending when the state it returns always extends the state it gets.
\<close>

definition extends :: "'w state \<Rightarrow> 'w state \<Rightarrow> bool" where
  "extends s s' = (\<exists>xs. out s' = out s @ xs)"

definition appending :: "'w callback \<Rightarrow> bool" where
  "appending cb = (\<forall>r s. extends s (cb r s))"

text \<open>
  The effects that start a child process or a transfer; a list of effects is quiet
  when it neither calls the callback nor starts anything.
\<close>

fun is_launch :: "effect \<Rightarrow> bool" where
  "is_launch (Spawn c a d) = True"
| "is_launch (PutFile k a b) = True"
| "is_launch (GetFile k a) = True"
| "is_launch e = False"

definition launches :: "effect list \<Rightarrow> effect list" where
  "launches es = filter is_launch es"

definition quiet :: "effect list \<Rightarrow> bool" where
  "quiet xs = (calls xs = [] \<and> launches xs = [])"

text \<open>
  The callback that the sequencer hands to a step that is followed by the steps \<open>ts\<close>,
  by name; \<open>reports\<close> says that a step started in a state with the given world and
  effects calls its callback exactly once, as the last thing it does, with the given
  result and in the given new world and effects; \<open>pipeline\<close> is the state machine of
  the specification over such steps: run them in order, stop at the first that
  reports an error.
\<close>

definition armed :: "'w task list \<Rightarrow> 'w callback \<Rightarrow> 'w callback" where
  "armed ts final =
     (\<lambda>err s'.
          case err of
            Some e \<Rightarrow> final (Some e) s'
          | None \<Rightarrow> series_from ts final s')"

definition reports :: "'w task \<Rightarrow> 'w \<times> effect list \<Rightarrow> js_error option \<Rightarrow> 'w \<times> effect list \<Rightarrow> bool" where
  "reports t v r v' =
     (\<forall>cb s. world s = fst v \<and> out s = snd v \<longrightarrow>
        t (Some cb) s = cb r (s\<lparr>world := fst v', out := snd v'\<rparr>))"

inductive pipeline ::
  "'w task list \<Rightarrow> 'w \<times> effect list \<Rightarrow> js_error option \<Rightarrow> 'w \<times> effect list \<Rightarrow> bool" where
  pipeline_done: "pipeline [] v None v"
| pipeline_failed: "reports t v (Some e) v' \<Longrightarrow> pipeline (t # ts) v (Some e) v'"
| pipeline_next: "reports t v None v' \<Longrightarrow> pipeline ts v' r v'' \<Longrightarrow> pipeline (t # ts) v r v''"

section \<open>Numbers as text\<close>

lemma digit_char_inj: "a < 10 \<Longrightarrow> b < 10 \<Longrightarrow> digit_char a = digit_char b \<Longrightarrow> a = b"
proof -
  assume a: "a < 10" and b: "b < 10" and e: "digit_char a = digit_char b"
  have A: "a \<in> {0,1,2,3,4,5,6,7,8,9}" using a by auto
  have B: "b \<in> {0,1,2,3,4,5,6,7,8,9}" using b by auto
  show ?thesis using A B e by (auto simp: digit_char_def)
qed

lemma digit_char_plain: "d < 10 \<Longrightarrow> digit_char d \<noteq> CHR ''_'' \<and> digit_char d \<noteq> CHR ''-''"
proof -
  assume a: "d < 10"
  have A: "d \<in> {0,1,2,3,4,5,6,7,8,9}" using a by auto
  show ?thesis using A by (auto simp: digit_char_def)
qed

declare nat_string.simps [simp del]

lemma nat_string_nonempty: "nat_string n \<noteq> []"
  by (subst nat_string.simps) simp

lemma nat_string_plain: "c \<in> set (nat_string n) \<Longrightarrow> c \<noteq> CHR ''_'' \<and> c \<noteq> CHR ''-''"
proof (induction n rule: nat_string.induct)
  case (1 n)
  show ?case
  proof (cases "n < 10")
    case True
    with "1.prems" show ?thesis
      by (subst (asm) nat_string.simps) (simp add: digit_char_plain)
  next
    case False
    with "1.prems" have "c \<in> set (nat_string (n div 10)) \<or> c = digit_char (n mod 10)"
      by (subst (asm) nat_string.simps) auto
    then show ?thesis using "1.IH" False digit_char_plain [of "n mod 10"] by auto
  qed
qed

lemma nat_string_inj: "nat_string n = nat_string m \<Longrightarrow> n = m"
proof (induction n arbitrary: m rule: nat_string.induct)
  case (1 n)
  show ?case
  proof (cases "n < 10")
    case n: True
    show ?thesis
    proof (cases "m < 10")
      case True
      with n "1.prems" show ?thesis
        by (simp add: nat_string.simps [of n] nat_string.simps [of m] digit_char_inj)
    next
      case False
      with n "1.prems" have "[digit_char n] = nat_string (m div 10) @ [digit_char (m mod 10)]"
        by (simp add: nat_string.simps [of n] nat_string.simps [of m])
      then show ?thesis using nat_string_nonempty [of "m div 10"] by simp
    qed
  next
    case n: False
    show ?thesis
    proof (cases "m < 10")
      case True
      with n "1.prems" have "nat_string (n div 10) @ [digit_char (n mod 10)] = [digit_char m]"
        by (simp add: nat_string.simps [of n] nat_string.simps [of m])
      then show ?thesis using nat_string_nonempty [of "n div 10"] by simp
    next
      case False
      with n "1.prems" have e: "nat_string (n div 10) @ [digit_char (n mod 10)] = nat_string (m div 10) @ [digit_char (m mod 10)]"
        by (simp add: nat_string.simps [of n] nat_string.simps [of m])
      then have "nat_string (n div 10) = nat_string (m div 10)" and d: "digit_char (n mod 10) = digit_char (m mod 10)"
        by simp_all
      then have "n div 10 = m div 10" using "1.IH" n by blast
      moreover have "n mod 10 = m mod 10" using d by (intro digit_char_inj) simp_all
      ultimately show ?thesis by (metis div_mult_mod_eq)
    qed
  qed
qed

lemma number_string_no_underscore: "CHR ''_'' \<notin> set (number_string i)"
  using nat_string_plain by (auto simp: number_string_def)

lemma number_string_inj: "number_string i = number_string j \<Longrightarrow> i = j"
proof -
  assume e: "number_string i = number_string j"
  have hd_nat: "\<And>n. hd (nat_string n) \<noteq> CHR ''-''"
    using nat_string_plain nat_string_nonempty by (metis list.set_sel(1))
  show ?thesis
  proof (cases "i < 0"; cases "j < 0")
    assume "i < 0" "j < 0"
    with e have "nat (- i) = nat (- j)" by (simp add: number_string_def nat_string_inj)
    with \<open>i < 0\<close> \<open>j < 0\<close> show ?thesis by simp
  next
    assume "i < 0" "\<not> j < 0"
    with e have "CHR ''-'' # nat_string (nat (- i)) = nat_string (nat j)" by (simp add: number_string_def)
    then have "hd (nat_string (nat j)) = CHR ''-''" by (metis list.sel(1))
    then show ?thesis using hd_nat by blast
  next
    assume "\<not> i < 0" "j < 0"
    with e have "CHR ''-'' # nat_string (nat (- j)) = nat_string (nat i)" by (simp add: number_string_def)
    then have "hd (nat_string (nat i)) = CHR ''-''" by (metis list.sel(1))
    then show ?thesis using hd_nat by blast
  next
    assume "\<not> i < 0" "\<not> j < 0"
    with e have "nat i = nat j" by (simp add: number_string_def nat_string_inj)
    with \<open>\<not> i < 0\<close> \<open>\<not> j < 0\<close> show ?thesis by simp
  qed
qed

lemma number_string_small:
  "number_string 0 = ''0''" "number_string 1 = ''1''" "number_string 3 = ''3''"
  "number_string 11 = ''11''" "number_string 17 = ''17''" "number_string 18 = ''18''"
  "number_string 200 = ''200''" "number_string 404 = ''404''" "number_string 2026 = ''2026''"
  "number_string 27017 = ''27017''"
  by (simp_all add: number_string_def nat_string.simps digit_char_def)

lemma getArchiveName_eq:
  "getArchiveName date D =
     D @ ''_'' @ number_string (getFullYear date) @ ''_'' @ number_string (getMonth date + 1) @ ''_'' @
     number_string (getDate date) @ ''_'' @ number_string (getTime date) @ ''.tar.gz''"
  by (simp add: getArchiveName_def)

lemma epoch_field_name:
  "rev (takeWhile (\<lambda>c. c \<noteq> CHR ''_'') (drop 7 (rev (getArchiveName date D)))) = number_string (getTime date)"
proof -
  let ?t = "number_string (getTime date)"
  obtain pre where p: "getArchiveName date D = pre @ ''_'' @ ?t @ ''.tar.gz''"
    by (simp add: getArchiveName_eq)
  have "rev (getArchiveName date D) = rev ''.tar.gz'' @ rev ?t @ CHR ''_'' # rev pre"
    by (simp add: p)
  then have "drop 7 (rev (getArchiveName date D)) = rev ?t @ CHR ''_'' # rev pre"
    by simp
  moreover have "takeWhile (\<lambda>c. c \<noteq> CHR ''_'') (rev ?t @ CHR ''_'' # rev pre) = rev ?t"
    using number_string_no_underscore [of "getTime date"] by (subst takeWhile_tail) auto
  ultimately show ?thesis by simp
qed

text \<open>
  Claim C5. For every database name \<open>D\<close> and every instant, the archive name is
  \<open>D\<close>, the year, the month counted from 1 (\<open>getMonth\<close> counts from 0), the day and the
  epoch milliseconds, joined by underscores and followed by \<open>.tar.gz\<close>. So it begins
  with \<open>D\<close> and an underscore, it ends with \<open>.tar.gz\<close>, and two instants with different
  epoch milliseconds give different names (whatever the database names are).
\<close>

theorem getArchiveName_format:
  "getArchiveName date D =
     D @ ''_'' @ number_string (getFullYear date) @ ''_'' @ number_string (getMonth date + 1) @ ''_'' @
     number_string (getDate date) @ ''_'' @ number_string (getTime date) @ ''.tar.gz''
   \<and> take (length D + 1) (getArchiveName date D) = D @ ''_''
   \<and> drop (length (getArchiveName date D) - 7) (getArchiveName date D) = ''.tar.gz''
   \<and> (getTime date \<noteq> getTime date' \<longrightarrow> getArchiveName date D \<noteq> getArchiveName date' D')"
proof (intro conjI impI)
  show "getArchiveName date D =
     D @ ''_'' @ number_string (getFullYear date) @ ''_'' @ number_string (getMonth date + 1) @ ''_'' @
     number_string (getDate date) @ ''_'' @ number_string (getTime date) @ ''.tar.gz''"
    by (rule getArchiveName_eq)
  show "take (length D + 1) (getArchiveName date D) = D @ ''_''"
    by (simp add: getArchiveName_eq)
  show "drop (length (getArchiveName date D) - 7) (getArchiveName date D) = ''.tar.gz''"
  proof -
    obtain pre where p: "getArchiveName date D = pre @ ''.tar.gz''"
      by (simp add: getArchiveName_eq)
    show ?thesis unfolding p by simp
  qed
next
  assume ne: "getTime date \<noteq> getTime date'"
  show "getArchiveName date D \<noteq> getArchiveName date' D'"
  proof
    assume "getArchiveName date D = getArchiveName date' D'"
    then have "number_string (getTime date) = number_string (getTime date')"
      using epoch_field_name [of date D] epoch_field_name [of date' D'] by simp
    with ne show False using number_string_inj by blast
  qed
qed

theorem getArchiveName_format_witness:
  "getArchiveName \<lparr>getFullYear = 2026, getMonth = 10, getDate = 3, getTime = 17\<rparr> ''mydb''
     = ''mydb_2026_11_3_17.tar.gz''
   \<and> (17::int) \<noteq> 18
   \<and> getArchiveName \<lparr>getFullYear = 2026, getMonth = 10, getDate = 3, getTime = 17\<rparr> ''mydb''
     \<noteq> getArchiveName \<lparr>getFullYear = 2026, getMonth = 10, getDate = 3, getTime = 18\<rparr> ''mydb''"
proof -
  let ?d = "\<lparr>getFullYear = 2026, getMonth = 10, getDate = 3, getTime = 17\<rparr>"
  let ?d' = "\<lparr>getFullYear = 2026, getMonth = 10, getDate = 3, getTime = 18\<rparr>"
  have a: "getArchiveName ?d ''mydb'' = ''mydb_2026_11_3_17.tar.gz''"
    by (simp add: getArchiveName_def number_string_small)
  have c: "(17::int) \<noteq> 18" by simp
  have n: "getTime ?d \<noteq> getTime ?d'" by simp
  have b: "getArchiveName ?d ''mydb'' \<noteq> getArchiveName ?d' ''mydb''"
    using getArchiveName_format [of ?d "''mydb''" ?d' "''mydb''"] n by blast
  show ?thesis by (intro conjI a b c)
qed

section \<open>Traces of the single operations\<close>

lemma effect_effects: "effect e s = effects [e] s"
  by (simp add: effect_def effects_def)

lemma log_effects: "log m t s = effects [log_line m t] s"
  by (simp add: log_def effect_effects)

lemma report_effects: "report r s = effects [Called r] s"
  by (simp add: report_def effect_effects)

lemma effects_effects: "effects b (effects a s) = effects (a @ b) s"
  by (simp add: effects_def)

lemma effects_world: "(effects es s)\<lparr>world := w\<rparr> = effects es (s\<lparr>world := w\<rparr>)"
  by (simp add: effects_def)

lemma effects_sel:
  "out (effects es s) = out s @ es" "world (effects es s) = world s"
  by (simp_all add: effects_def)

lemma effects_Nil: "effects [] s = s"
  by (simp add: effects_def)

lemma deliver_effects:
  assumes "\<And>e s. h e s = effects (f e) s"
  shows "deliver h evs s = effects (concat (map f evs)) s"
proof (induction evs arbitrary: s)
  case Nil
  show ?case by (simp add: effects_Nil)
next
  case (Cons e evs)
  have "deliver h (e # evs) s = deliver h evs (h e s)" by simp
  also have "\<dots> = effects (concat (map f evs)) (h e s)" by (rule Cons.IH)
  also have "\<dots> = effects (concat (map f evs)) (effects (f e) s)" by (simp only: assms)
  also have "\<dots> = effects (concat (map f (e # evs))) s" by (simp add: effects_effects)
  finally show ?case .
qed

lemma calls_append: "calls (a @ b) = calls a @ calls b"
  by (simp add: calls_def)

lemma log_lines_append: "log_lines (a @ b) = log_lines a @ log_lines b"
  by (simp add: log_lines_def)

lemma calls_simps:
  "calls [] = []" "calls (Called r # es) = r # calls es" "calls (log_line m t # es) = calls es"
  "calls (Spawn c as d # es) = calls es" "calls (Exec x # es) = calls es"
  "calls (FsExists x # es) = calls es" "calls (PutFile k x y # es) = calls es"
  "calls (GetFile k x # es) = calls es" "calls (Mkdir x # es) = calls es"
  "calls (CreateWriteStream x # es) = calls es" "calls (Logged l b # es) = calls es"
  by (simp_all add: calls_def log_line_def Let_def)

lemma log_lines_simps:
  "log_lines [] = []" "log_lines (Called r # es) = log_lines es"
  "log_lines (Logged l b # es) = (l, b) # log_lines es"
  "log_lines (Spawn c a' d # es) = log_lines es" "log_lines (Exec x # es) = log_lines es"
  "log_lines (FsExists x # es) = log_lines es" "log_lines (PutFile k x y # es) = log_lines es"
  "log_lines (GetFile k x # es) = log_lines es" "log_lines (Mkdir x # es) = log_lines es"
  "log_lines (CreateWriteStream x # es) = log_lines es"
  by (simp_all add: log_lines_def)

lemma log_line_levels:
  "log_line m NoTag = Logged ''info'' (strip_newline (''[info] '' @ m))"
  "log_line m (Tag ''info'') = Logged ''info'' (strip_newline (''[info] '' @ m))"
  "log_line m (Tag ''error'') = Logged ''error'' (strip_newline (''[error] '' @ m))"
  "log_line m (Tag ''warn'') = Logged ''warn'' (strip_newline (''[warn] '' @ m))"
  by (simp_all add: log_line_def tag_or_info_def)

lemma mongodump_on_report:
  "mongodump_on report e s = effects (runner_trace True ''Mongodump'' ''mongodump executed successfully'' e) s"
  by (cases e) (simp_all add: log_effects report_effects effects_effects exit_trace_def)

lemma mongorestore_on_report:
  "mongorestore_on report e s = effects (runner_trace True ''Mongorestore'' ''mongorestore executed successfully'' e) s"
  by (cases e) (simp_all add: log_effects report_effects effects_effects exit_trace_def)

lemma uncompress_on_report:
  "uncompress_on report e s = effects (runner_trace True ''Tar'' ''successfully uncompressed archive'' e) s"
  by (cases e) (simp_all add: log_effects report_effects effects_effects exit_trace_def)

lemma compress_on_report:
  "compress_on report e s = effects (runner_trace False ''Tar'' ''successfully compress directory'' e) s"
  by (cases e) (simp_all add: log_effects report_effects effects_effects exit_trace_def effects_Nil)

lemma mongoDump_trace:
  "out (mongoDump env opts dir (Some report) s) =
     out s @ [log_line (''Starting mongodump of '' @ db opts) (Tag ''info''),
              Spawn ''mongodump'' (mongoDumpOptions opts dir) None]
       @ concat (map (runner_trace True ''Mongodump'' ''mongodump executed successfully'')
           (fst (child_spawn env ''mongodump'' (mongoDumpOptions opts dir) None (world s))))"
  by (simp add: mongoDump_def Let_def or_noop_def split_beta log_effects effect_effects
      deliver_effects [of _ _, OF mongodump_on_report] effects_sel effects_world effects_effects)

lemma mongoRestore_trace:
  "out (mongoRestore env opts dir (Some report) s) =
     out s @ [log_line (''Starting mongorestore of '' @ db opts) (Tag ''info''),
              Spawn ''mongorestore'' (mongoRestoreOptions opts dir) None]
       @ concat (map (runner_trace True ''Mongorestore'' ''mongorestore executed successfully'')
           (fst (child_spawn env ''mongorestore'' (mongoRestoreOptions opts dir) None (world s))))"
  by (simp add: mongoRestore_def Let_def or_noop_def split_beta log_effects effect_effects
      deliver_effects [of _ _, OF mongorestore_on_report] effects_sel effects_world effects_effects)

lemma compressDirectory_trace:
  "out (compressDirectory env dir inp outp (Some report) s) =
     out s @ [log_line (''Starting compression of '' @ inp @ '' into '' @ outp) (Tag ''info''),
              Spawn ''tar'' [''-zcf'', outp, inp] (Some dir)]
       @ concat (map (runner_trace False ''Tar'' ''successfully compress directory'')
           (fst (child_spawn env ''tar'' [''-zcf'', outp, inp] (Some dir) (world s))))"
  by (simp add: compressDirectory_def Let_def or_noop_def split_beta log_effects effect_effects
      deliver_effects [of _ _, OF compress_on_report] effects_sel effects_world effects_effects)

lemma uncompressArchive_trace:
  "out (uncompressArchive env inp outp (Some report) s) =
     out s @ [log_line (''Starting decompression of '' @ inp @ '' into '' @ outp) (Tag ''info''),
              Spawn ''tar'' [''-zxvf'', inp] (Some outp)]
       @ concat (map (runner_trace True ''Tar'' ''successfully uncompressed archive'')
           (fst (child_spawn env ''tar'' [''-zxvf'', inp] (Some outp) (world s))))"
  by (simp add: uncompressArchive_def Let_def or_noop_def split_beta log_effects effect_effects
      deliver_effects [of _ _, OF uncompress_on_report] effects_sel effects_world effects_effects)

lemma calls_runner_trace:
  "calls (concat (map (runner_trace so name success) evs)) =
     map (\<lambda>c. if c = Some 0 then None else Some (Error (name @ '' exited with code '' @ code_string c)))
       (exit_codes evs)"
proof (induction evs)
  case Nil
  show ?case by (simp add: calls_def exit_codes_def)
next
  case (Cons e evs)
  have "calls (runner_trace so name success e) =
     map (\<lambda>c. if c = Some 0 then None else Some (Error (name @ '' exited with code '' @ code_string c)))
       (code_of e)"
    by (cases e) (simp_all add: calls_simps exit_trace_def)
  then show ?case using Cons.IH by (simp add: calls_append exit_codes_def)
qed

lemma capitalize_names:
  "capitalize ''mongodump'' = ''Mongodump''" "capitalize ''mongorestore'' = ''Mongorestore''"
  "capitalize ''tar'' = ''Tar''"
  by (simp_all add: upper_char_def)

text \<open>
  Claim C3. For each of the four process runners (dump, restore, compress, decompress)
  the callback is called once for each exit event of the child, in order: with no
  error if and only if the exit code is 0, and otherwise with an error whose message
  is the name of the spawned command (first letter in upper case), the words
  \<open>exited with code\<close> and the exit code in decimal.
\<close>

theorem exit_code_decides:
  "calls (out (mongoDump env opts dir (Some report) s)) =
     calls (out s) @
     map (\<lambda>c. if c = Some 0 then None
              else Some (Error (capitalize ''mongodump'' @ '' exited with code '' @ code_string c)))
       (exit_codes (fst (child_spawn env ''mongodump'' (mongoDumpOptions opts dir) None (world s))))
   \<and> calls (out (mongoRestore env opts dir (Some report) s)) =
     calls (out s) @
     map (\<lambda>c. if c = Some 0 then None
              else Some (Error (capitalize ''mongorestore'' @ '' exited with code '' @ code_string c)))
       (exit_codes (fst (child_spawn env ''mongorestore'' (mongoRestoreOptions opts dir) None (world s))))
   \<and> calls (out (compressDirectory env dir inp outp (Some report) s)) =
     calls (out s) @
     map (\<lambda>c. if c = Some 0 then None
              else Some (Error (capitalize ''tar'' @ '' exited with code '' @ code_string c)))
       (exit_codes (fst (child_spawn env ''tar'' [''-zcf'', outp, inp] (Some dir) (world s))))
   \<and> calls (out (uncompressArchive env inp outp (Some report) s)) =
     calls (out s) @
     map (\<lambda>c. if c = Some 0 then None
              else Some (Error (capitalize ''tar'' @ '' exited with code '' @ code_string c)))
       (exit_codes (fst (child_spawn env ''tar'' [''-zxvf'', inp] (Some outp) (world s))))
   \<and> code_string (Some n) = number_string n"
proof (intro conjI)
  show "code_string (Some n) = number_string n" by (simp add: code_string_def)
qed (simp_all only: mongoDump_trace mongoRestore_trace compressDirectory_trace uncompressArchive_trace
      calls_append calls_simps calls_runner_trace capitalize_names append_Nil)

lemma log_lines_runner_trace:
  "log_lines (concat (map (runner_trace so name success) evs)) =
     concat (map (logged_for so success) evs)"
proof (induction evs)
  case Nil
  show ?case by (simp add: log_lines_def)
next
  case (Cons e evs)
  have "log_lines (runner_trace so name success e) = logged_for so success e"
    by (cases e) (simp_all add: log_lines_simps exit_trace_def log_line_levels logged_for_def)
  then show ?case using Cons.IH by (simp add: log_lines_append)
qed

text \<open>
  Claim C7, as amended. With the dump, the restore and the decompression, every chunk
  of the standard output of the child is logged at info level and every chunk of its
  standard error at error level, in the order of arrival (between the line that
  announces the start and the line that announces success). The compression logs the
  chunks of the standard error only: the standard output of its child has no listener.
\<close>

theorem child_output_logged:
  "log_lines (out (mongoDump env opts dir (Some report) s)) =
     log_lines (out s) @
     (''info'', strip_newline (''[info] Starting mongodump of '' @ db opts)) #
     concat (map (logged_for True ''mongodump executed successfully'')
       (fst (child_spawn env ''mongodump'' (mongoDumpOptions opts dir) None (world s))))
   \<and> log_lines (out (mongoRestore env opts dir (Some report) s)) =
     log_lines (out s) @
     (''info'', strip_newline (''[info] Starting mongorestore of '' @ db opts)) #
     concat (map (logged_for True ''mongorestore executed successfully'')
       (fst (child_spawn env ''mongorestore'' (mongoRestoreOptions opts dir) None (world s))))
   \<and> log_lines (out (uncompressArchive env inp outp (Some report) s)) =
     log_lines (out s) @
     (''info'', strip_newline (''[info] Starting decompression of '' @ inp @ '' into '' @ outp)) #
     concat (map (logged_for True ''successfully uncompressed archive'')
       (fst (child_spawn env ''tar'' [''-zxvf'', inp] (Some outp) (world s))))
   \<and> log_lines (out (compressDirectory env dir inp outp (Some report) s)) =
     log_lines (out s) @
     (''info'', strip_newline (''[info] Starting compression of '' @ inp @ '' into '' @ outp)) #
     concat (map (logged_for False ''successfully compress directory'')
       (fst (child_spawn env ''tar'' [''-zcf'', outp, inp] (Some dir) (world s))))"
  by (simp add: mongoDump_trace mongoRestore_trace compressDirectory_trace uncompressArchive_trace
      log_lines_append log_lines_simps log_lines_runner_trace log_line_levels)

lemma strip_newline_plain: "str \<noteq> [] \<Longrightarrow> last str \<noteq> CHR 0x0A \<Longrightarrow> last str \<noteq> CHR 0x0D \<Longrightarrow> strip_newline str = str"
  by (cases str rule: rev_cases) (simp_all add: strip_newline_def)

text \<open>
  Claim C7 as stated fails for the compression: a chunk that its child writes to the
  standard output is not logged.
\<close>

theorem compress_stdout_not_logged:
  "(''info'', ''[info] a.bson'') \<notin>
     set (log_lines (out (compressDirectory
       (example_env (\<lambda>cmd. [StdoutData ''a.bson'', Exit (Some 0)])
          (Inl (Error ''unused'')) (Inl (Error ''unused'')))
       ''/tmp/mongodb_s3_backup'' ''mydb'' ''mydb.tar.gz'' (Some report) (start []))))"
  by (simp add: compressDirectory_trace log_lines_append log_lines_simps log_line_levels
      exit_trace_def example_env_def start_def strip_newline_plain)

lemma upload_on_report: "upload_on report status e s = effects (upload_expected status e) s"
  by (cases e) (simp_all add: upload_expected_def log_effects report_effects effects_effects log_line_levels)

lemma sendToS3_trace:
  "out (sendToS3 env opts dir target (Some report) s) =
     out s @
     [Logged ''info'' (strip_newline (''[info] Attemping to upload '' @ target @ '' to the '' @ bucket opts @ '' s3 bucket'')),
      PutFile (KnoxClient (key opts) (secret opts) (bucket opts)) (path_join env dir target)
        (path_join env (if truthy (destination opts) then the (destination opts) else ''/'') target)] @
     (case fst (knox_putFile env (KnoxClient (key opts) (secret opts) (bucket opts)) (path_join env dir target)
                 (path_join env (if truthy (destination opts) then the (destination opts) else ''/'') target)
                 (world s)) of
        Inl err \<Rightarrow> [Called (Some err)]
      | Inr res \<Rightarrow> concat (map (upload_expected (statusCode res)) (events res)))"
  by (simp add: sendToS3_def Let_def or_noop_def split_beta log_effects effect_effects report_effects
      deliver_effects [of _ _, OF upload_on_report] effects_sel effects_world effects_effects
      log_line_levels split: sum.splits)

lemma calls_upload_expected:
  "calls (concat (map (upload_expected status) evs)) =
     map (\<lambda>e. if status \<noteq> 200
               then Some (Error (''Expected a 200 response from S3, got '' @ number_string status))
               else None)
       (filter (\<lambda>e. e = End) evs)"
proof (induction evs)
  case Nil
  show ?case by (simp add: calls_simps)
next
  case (Cons e evs)
  then show ?case
    by (cases e) (simp_all add: calls_append calls_simps upload_expected_def)
qed

text \<open>
  Claim C6. The upload logs its attempt and calls putFile. A transport error goes to
  the callback at once. Otherwise each chunk of the response is logged, at error level
  when the status is not 200 and at info level when it is; and the callback is called
  at the end of the response stream, and only there: with an error that embeds the
  status code when the status is not 200, with no error (after the success line) when
  it is 200.
\<close>

theorem upload_status:
  "out (sendToS3 env opts dir target (Some report) s) =
     out s @
     [Logged ''info'' (strip_newline (''[info] Attemping to upload '' @ target @ '' to the '' @ bucket opts @ '' s3 bucket'')),
      PutFile (KnoxClient (key opts) (secret opts) (bucket opts)) (path_join env dir target)
        (path_join env (if truthy (destination opts) then the (destination opts) else ''/'') target)] @
     (case fst (knox_putFile env (KnoxClient (key opts) (secret opts) (bucket opts)) (path_join env dir target)
                 (path_join env (if truthy (destination opts) then the (destination opts) else ''/'') target)
                 (world s)) of
        Inl err \<Rightarrow> [Called (Some err)]
      | Inr res \<Rightarrow> concat (map (upload_expected (statusCode res)) (events res)))
   \<and> calls (out (sendToS3 env opts dir target (Some report) s)) =
     calls (out s) @
     (case fst (knox_putFile env (KnoxClient (key opts) (secret opts) (bucket opts)) (path_join env dir target)
                 (path_join env (if truthy (destination opts) then the (destination opts) else ''/'') target)
                 (world s)) of
        Inl err \<Rightarrow> [Some err]
      | Inr res \<Rightarrow>
          map (\<lambda>e. if statusCode res \<noteq> 200
                    then Some (Error (''Expected a 200 response from S3, got '' @ number_string (statusCode res)))
                    else None)
            (filter (\<lambda>e. e = End) (events res)))"
proof
  show "out (sendToS3 env opts dir target (Some report) s) =
     out s @
     [Logged ''info'' (strip_newline (''[info] Attemping to upload '' @ target @ '' to the '' @ bucket opts @ '' s3 bucket'')),
      PutFile (KnoxClient (key opts) (secret opts) (bucket opts)) (path_join env dir target)
        (path_join env (if truthy (destination opts) then the (destination opts) else ''/'') target)] @
     (case fst (knox_putFile env (KnoxClient (key opts) (secret opts) (bucket opts)) (path_join env dir target)
                 (path_join env (if truthy (destination opts) then the (destination opts) else ''/'') target)
                 (world s)) of
        Inl err \<Rightarrow> [Called (Some err)]
      | Inr res \<Rightarrow> concat (map (upload_expected (statusCode res)) (events res)))"
    by (rule sendToS3_trace)
  show "calls (out (sendToS3 env opts dir target (Some report) s)) =
     calls (out s) @
     (case fst (knox_putFile env (KnoxClient (key opts) (secret opts) (bucket opts)) (path_join env dir target)
                 (path_join env (if truthy (destination opts) then the (destination opts) else ''/'') target)
                 (world s)) of
        Inl err \<Rightarrow> [Some err]
      | Inr res \<Rightarrow>
          map (\<lambda>e. if statusCode res \<noteq> 200
                    then Some (Error (''Expected a 200 response from S3, got '' @ number_string (statusCode res)))
                    else None)
            (filter (\<lambda>e. e = End) (events res)))"
    unfolding sendToS3_trace
    by (simp add: calls_append calls_simps calls_upload_expected split: sum.splits)
qed

lemma download_on_report: "download_on report status e s = effects (download_expected status e) s"
proof (cases e)
  case (Res r)
  then show ?thesis
    by (cases r) (simp_all add: download_expected_def log_effects report_effects effects_effects log_line_levels)
next
  case (MkdirDone err)
  then show ?thesis
    by (cases err) (simp_all add: download_expected_def log_effects effects_Nil log_line_levels)
next
  case FileClose
  then show ?thesis
    by (simp add: download_expected_def log_effects report_effects effects_effects log_line_levels)
qed

lemma getFromS3_trace:
  "out (getFromS3 env cfg target dest (Some report) s) =
     out s @
     [Logged ''info'' (strip_newline (''[info] Attempting to download '' @ target @ '' from  bucket '' @ bucket cfg)),
      GetFile (KnoxClient (key cfg) (secret cfg) (bucket cfg)) target] @
     (case fst (knox_getFile env (KnoxClient (key cfg) (secret cfg) (bucket cfg)) target (world s)) of
        Inl err \<Rightarrow>
          [Logged ''info'' (strip_newline (''[info] '' @ error_string err)),
           Called (Some (Error ''Error when downloading''))]
      | Inr res \<Rightarrow>
          [log_line ''Status '' (NumTag (statusCode res)),
           Logged ''info'' (strip_newline (''[info] SAVING FILE to'' @ dest)),
           Mkdir (replace_first target [] dest),
           CreateWriteStream dest] @
          concat (map (download_expected (statusCode res)) (events res)))"
  by (simp add: getFromS3_def Let_def or_noop_def split_beta log_effects effect_effects report_effects
      deliver_effects [of _ _, OF download_on_report] effects_sel effects_world effects_effects
      log_line_levels split: sum.splits)

text \<open>
  Claim C9. When the response to a download has a status other than 200 and its
  stream ends after some chunks were piped to the file, which then closes, the
  callback is called twice: with the error that embeds the status when the stream
  ends, and with no error when the file closes.
\<close>

theorem download_reports_twice:
  assumes "fst (knox_getFile env (KnoxClient (key cfg) (secret cfg) (bucket cfg)) target (world s)) = Inr res"
    and "statusCode res \<noteq> 200"
    and "events res = map (\<lambda>chunk. Res (Data chunk)) chunks @ [Res End, FileClose]"
  shows "calls (out (getFromS3 env cfg target dest (Some report) s)) =
           calls (out s) @
           [Some (Error (''Expected a 200 response from S3, got '' @ number_string (statusCode res))), None]
       \<and> drop (length (out s) + 6 + length chunks) (out (getFromS3 env cfg target dest (Some report) s)) =
           [Called (Some (Error (''Expected a 200 response from S3, got '' @ number_string (statusCode res)))),
            Logged ''info'' (strip_newline ''[info] FILE FULLY WRITTEN TO DISK''),
            Called None]"
proof -
  let ?pre = "out s @
     [Logged ''info'' (strip_newline (''[info] Attempting to download '' @ target @ '' from  bucket '' @ bucket cfg)),
      GetFile (KnoxClient (key cfg) (secret cfg) (bucket cfg)) target,
      log_line ''Status '' (NumTag (statusCode res)),
      Logged ''info'' (strip_newline (''[info] SAVING FILE to'' @ dest)),
      Mkdir (replace_first target [] dest),
      CreateWriteStream dest] @
      map (\<lambda>chunk. log_line ''bytes received '' (NumTag (int (length chunk)))) chunks"
  let ?suf = "[Called (Some (Error (''Expected a 200 response from S3, got '' @ number_string (statusCode res)))),
       Logged ''info'' (strip_newline ''[info] FILE FULLY WRITTEN TO DISK''),
       Called None]"
  have bytes: "concat (map (download_expected (statusCode res)) (map (\<lambda>chunk. Res (Data chunk)) chunks)) =
      map (\<lambda>chunk. log_line ''bytes received '' (NumTag (int (length chunk)))) chunks"
    by (induction chunks) (simp_all add: download_expected_def)
  have tr: "out (getFromS3 env cfg target dest (Some report) s) = ?pre @ ?suf"
    using assms by (simp add: getFromS3_trace bytes download_expected_def del: map_map)
  have c: "calls (map (\<lambda>chunk. log_line ''bytes received '' (NumTag (int (length chunk)))) chunks) = []"
    by (induction chunks) (simp_all add: calls_simps)
  have len: "length (out s) + 6 + length chunks = length ?pre"
    by simp
  have dr: "\<And>xs ys :: effect list. drop (length xs) (xs @ ys) = ys"
    by simp
  have "calls (?pre @ ?suf) =
      calls (out s) @
      [Some (Error (''Expected a 200 response from S3, got '' @ number_string (statusCode res))), None]"
    by (simp add: calls_append calls_simps c)
  moreover have "drop (length ?pre) (?pre @ ?suf) = ?suf"
    by (rule dr)
  ultimately show ?thesis
    unfolding tr len by blast
qed

theorem download_reports_twice_witness:
  "fst (knox_getFile
      (example_env (\<lambda>cmd. []) (Inl (Error ''unused''))
         (Inr \<lparr>statusCode = 404, events = [Res (Data ''NoSuchKey''), Res End, FileClose]\<rparr>))
      (KnoxClient ''k'' ''s'' ''b'') ''dump.tar.gz'' [])
     = Inr \<lparr>statusCode = 404, events = [Res (Data ''NoSuchKey''), Res End, FileClose]\<rparr>
   \<and> calls (out (getFromS3
      (example_env (\<lambda>cmd. []) (Inl (Error ''unused''))
         (Inr \<lparr>statusCode = 404, events = [Res (Data ''NoSuchKey''), Res End, FileClose]\<rparr>))
      \<lparr>key = ''k'', secret = ''s'', bucket = ''b'', destination = None\<rparr>
      ''dump.tar.gz'' ''/tmp/mongodb_s3_backup/dump.tar.gz'' (Some report) (start [])))
     = [Some (Error ''Expected a 200 response from S3, got 404''), None]"
proof -
  let ?res = "\<lparr>statusCode = 404, events = [Res (Data ''NoSuchKey''), Res End, FileClose]\<rparr>"
  let ?env = "example_env (\<lambda>cmd. []) (Inl (Error ''unused'')) (Inr ?res)"
  let ?s = "start ([] :: string list)"
  let ?cfg = "\<lparr>key = ''k'', secret = ''s'', bucket = ''b'', destination = None\<rparr>"
  have g: "fst (knox_getFile ?env (KnoxClient ''k'' ''s'' ''b'') ''dump.tar.gz'' []) = Inr ?res"
    by (simp add: example_env_def)
  have g': "fst (knox_getFile ?env (KnoxClient (key ?cfg) (secret ?cfg) (bucket ?cfg)) ''dump.tar.gz''
      (world ?s)) = Inr ?res"
    by (simp add: example_env_def start_def)
  have st: "statusCode ?res \<noteq> 200" by simp
  have ev: "events ?res = map (\<lambda>chunk. Res (Data chunk)) [''NoSuchKey''] @ [Res End, FileClose]"
    by simp
  have "calls (out (getFromS3 ?env ?cfg ''dump.tar.gz'' ''/tmp/mongodb_s3_backup/dump.tar.gz''
        (Some report) ?s)) =
      calls (out ?s) @
      [Some (Error (''Expected a 200 response from S3, got '' @ number_string (statusCode ?res))), None]"
    by (rule download_reports_twice [OF g' st ev, THEN conjunct1])
  then have "calls (out (getFromS3 ?env ?cfg ''dump.tar.gz'' ''/tmp/mongodb_s3_backup/dump.tar.gz''
        (Some report) ?s)) =
      [Some (Error ''Expected a 200 response from S3, got 404''), None]"
    by (simp add: start_def calls_simps number_string_small)
  with g show ?thesis by blast
qed

section \<open>Cleaning the staging paths\<close>

lemma removeRF_absent:
  "\<not> fs_exists env p (world s) \<Longrightarrow>
   removeRF env p (Some cb) s = cb None (s\<lparr>out := out s @ [FsExists p]\<rparr>)"
  by (simp add: removeRF_def Let_def or_noop_def effect_def)

lemma removeRF_present:
  "fs_exists env p (world s) \<Longrightarrow>
   removeRF env p (Some cb) s =
     cb (fst (child_exec env (''rm -rf '' @ p) (world s)))
        (s\<lparr>out := out s @ [FsExists p, Logged ''warn'' (strip_newline (''[warn] Removing '' @ p)),
                             Exec (''rm -rf '' @ p)],
           world := snd (child_exec env (''rm -rf '' @ p) (world s))\<rparr>)"
  by (simp add: removeRF_def Let_def or_noop_def effect_def log_def log_line_levels split_beta)

text \<open>
  Claim C8. On a path that does not exist, removeRF calls its callback with no error,
  having done nothing but the existence check: no removal is launched. On a path that
  exists it logs a warning, runs \<open>rm -rf\<close> on the path (recursive, forced: a file or a
  directory) and hands the outcome of that command to the callback. When the command
  succeeds and leaves the path absent, as \<open>rm -rf\<close> does, two calls in a row on an
  existing path both end with no error, the second without launching a removal.
\<close>

theorem removeRF_cases:
  "(\<not> fs_exists env p (world s) \<longrightarrow>
      removeRF env p (Some cb) s = cb None (s\<lparr>out := out s @ [FsExists p]\<rparr>))
   \<and> (fs_exists env p (world s) \<longrightarrow>
      removeRF env p (Some cb) s =
        cb (fst (child_exec env (''rm -rf '' @ p) (world s)))
           (s\<lparr>out := out s @ [FsExists p, Logged ''warn'' (strip_newline (''[warn] Removing '' @ p)),
                                Exec (''rm -rf '' @ p)],
              world := snd (child_exec env (''rm -rf '' @ p) (world s))\<rparr>))
   \<and> (fs_exists env p (world s) \<and> child_exec env (''rm -rf '' @ p) (world s) = (None, w') \<and>
        \<not> fs_exists env p w' \<longrightarrow>
      out (removeRF env p (Some (\<lambda>err s'. removeRF env p (Some report) (report err s'))) s) =
        out s @ [FsExists p, Logged ''warn'' (strip_newline (''[warn] Removing '' @ p)),
                 Exec (''rm -rf '' @ p), Called None, FsExists p, Called None])"
proof (intro conjI impI)
  assume "\<not> fs_exists env p (world s)"
  then show "removeRF env p (Some cb) s = cb None (s\<lparr>out := out s @ [FsExists p]\<rparr>)"
    by (rule removeRF_absent)
next
  assume "fs_exists env p (world s)"
  then show "removeRF env p (Some cb) s =
        cb (fst (child_exec env (''rm -rf '' @ p) (world s)))
           (s\<lparr>out := out s @ [FsExists p, Logged ''warn'' (strip_newline (''[warn] Removing '' @ p)),
                                Exec (''rm -rf '' @ p)],
              world := snd (child_exec env (''rm -rf '' @ p) (world s))\<rparr>)"
    by (rule removeRF_present)
next
  assume h: "fs_exists env p (world s) \<and> child_exec env (''rm -rf '' @ p) (world s) = (None, w') \<and>
        \<not> fs_exists env p w'"
  let ?s1 = "s\<lparr>out := out s @ [FsExists p, Logged ''warn'' (strip_newline (''[warn] Removing '' @ p)),
                                Exec (''rm -rf '' @ p)], world := w'\<rparr>"
  have "removeRF env p (Some (\<lambda>err s'. removeRF env p (Some report) (report err s'))) s =
      removeRF env p (Some report) (report None ?s1)"
    using h by (simp add: removeRF_present)
  also have "\<dots> = report None ((report None ?s1)\<lparr>out := out (report None ?s1) @ [FsExists p]\<rparr>)"
    using h by (intro removeRF_absent) (simp add: report_def effect_def)
  finally show "out (removeRF env p (Some (\<lambda>err s'. removeRF env p (Some report) (report err s'))) s) =
        out s @ [FsExists p, Logged ''warn'' (strip_newline (''[warn] Removing '' @ p)),
                 Exec (''rm -rf '' @ p), Called None, FsExists p, Called None]"
    by (simp add: report_def effect_def)
qed

theorem removeRF_cases_witness:
  "\<not> fs_exists (example_env (\<lambda>cmd. []) (Inl (Error ''unused'')) (Inl (Error ''unused'')))
       ''/tmp/mongodb_s3_backup/mydb'' []
   \<and> out (removeRF (example_env (\<lambda>cmd. []) (Inl (Error ''unused'')) (Inl (Error ''unused'')))
       ''/tmp/mongodb_s3_backup/mydb'' (Some report) (start [])) =
     [FsExists ''/tmp/mongodb_s3_backup/mydb'', Called None]
   \<and> fs_exists (example_env (\<lambda>cmd. []) (Inl (Error ''unused'')) (Inl (Error ''unused'')))
       ''/tmp/mongodb_s3_backup/mydb'' [''/tmp/mongodb_s3_backup/mydb'']
   \<and> out (removeRF (example_env (\<lambda>cmd. []) (Inl (Error ''unused'')) (Inl (Error ''unused'')))
       ''/tmp/mongodb_s3_backup/mydb''
       (Some (\<lambda>err s'. removeRF (example_env (\<lambda>cmd. []) (Inl (Error ''unused'')) (Inl (Error ''unused'')))
          ''/tmp/mongodb_s3_backup/mydb'' (Some report) (report err s')))
       (start [''/tmp/mongodb_s3_backup/mydb''])) =
     [FsExists ''/tmp/mongodb_s3_backup/mydb'',
      Logged ''warn'' ''[warn] Removing /tmp/mongodb_s3_backup/mydb'',
      Exec ''rm -rf /tmp/mongodb_s3_backup/mydb'',
      Called None,
      FsExists ''/tmp/mongodb_s3_backup/mydb'',
      Called None]"
proof -
  let ?env = "example_env (\<lambda>cmd. []) (Inl (Error ''unused'')) (Inl (Error ''unused''))"
  let ?p = "''/tmp/mongodb_s3_backup/mydb''"
  let ?s0 = "start ([] :: string list)"
  let ?s1 = "start [?p]"
  have a: "\<not> fs_exists ?env ?p []"
    by (simp add: example_env_def)
  have a': "\<not> fs_exists ?env ?p (world ?s0)"
    by (simp add: example_env_def start_def)
  have "removeRF ?env ?p (Some report) ?s0 = report None (?s0\<lparr>out := out ?s0 @ [FsExists ?p]\<rparr>)"
    using removeRF_cases [of ?env ?p ?s0 report] a' by blast
  then have b: "out (removeRF ?env ?p (Some report) ?s0) = [FsExists ?p, Called None]"
    by (simp add: report_def effect_def start_def)
  have c: "fs_exists ?env ?p [?p]"
    by (simp add: example_env_def)
  have c': "fs_exists ?env ?p (world ?s1) \<and> child_exec ?env (''rm -rf '' @ ?p) (world ?s1) = (None, [])
      \<and> \<not> fs_exists ?env ?p []"
    by (simp add: example_env_def start_def)
  have "out (removeRF ?env ?p (Some (\<lambda>err s'. removeRF ?env ?p (Some report) (report err s'))) ?s1) =
      out ?s1 @ [FsExists ?p, Logged ''warn'' (strip_newline (''[warn] Removing '' @ ?p)),
                 Exec (''rm -rf '' @ ?p), Called None, FsExists ?p, Called None]"
    using removeRF_cases [of ?env ?p ?s1 report "[]"] c' by blast
  then have d: "out (removeRF ?env ?p (Some (\<lambda>err s'. removeRF ?env ?p (Some report) (report err s'))) ?s1) =
      [FsExists ?p, Logged ''warn'' ''[warn] Removing /tmp/mongodb_s3_backup/mydb'',
       Exec ''rm -rf /tmp/mongodb_s3_backup/mydb'', Called None, FsExists ?p, Called None]"
    by (simp add: start_def strip_newline_plain)
  show ?thesis by (intro conjI a b c d)
qed

lemma extends_refl: "extends s s"
  by (simp add: extends_def)

lemma extends_trans: "extends a b \<Longrightarrow> extends b c \<Longrightarrow> extends a c"
  by (auto simp: extends_def)

lemma extends_out: "out b = out a @ xs \<Longrightarrow> extends a b"
  by (auto simp: extends_def)

lemma extends_effects: "extends s (effects es s)"
  by (simp add: extends_def effects_sel)

lemma extends_log: "extends s (log m t s)"
  by (simp add: log_effects extends_effects)

lemma appendingD: "appending cb \<Longrightarrow> extends s (cb r s)"
  by (simp add: appending_def)

lemma appending_report: "appending report"
  by (simp add: appending_def report_effects extends_effects)

lemma deliver_extends:
  assumes "\<And>e s. extends s (h e s)"
  shows "extends s (deliver h evs s)"
proof (induction evs arbitrary: s)
  case Nil
  show ?case by (simp add: extends_refl)
next
  case (Cons e evs)
  have "extends s (h e s)" by (rule assms)
  moreover have "extends (h e s) (deliver h evs (h e s))" by (rule Cons.IH)
  ultimately show ?case by (simp add: extends_trans)
qed

lemma removeRF_extends:
  assumes "appending cb"
  shows "extends s (removeRF env p (Some cb) s)"
proof (cases "fs_exists env p (world s)")
  case True
  show ?thesis
    unfolding removeRF_present [OF True]
    by (rule extends_trans [OF _ appendingD [OF assms]]) (simp add: extends_def)
next
  case False
  show ?thesis
    unfolding removeRF_absent [OF False]
    by (rule extends_trans [OF _ appendingD [OF assms]]) (simp add: extends_def)
qed

lemma mongodump_on_extends: "appending cb \<Longrightarrow> extends s (mongodump_on cb e s)"
  by (cases e) (auto intro: extends_log extends_trans [OF extends_log appendingD] appendingD)

lemma mongorestore_on_extends: "appending cb \<Longrightarrow> extends s (mongorestore_on cb e s)"
  by (cases e) (auto intro: extends_log extends_trans [OF extends_log appendingD] appendingD)

lemma uncompress_on_extends: "appending cb \<Longrightarrow> extends s (uncompress_on cb e s)"
  by (cases e) (auto intro: extends_log extends_trans [OF extends_log appendingD] appendingD)

lemma compress_on_extends: "appending cb \<Longrightarrow> extends s (compress_on cb e s)"
  by (cases e) (auto intro: extends_refl extends_log extends_trans [OF extends_log appendingD] appendingD)

lemma upload_on_extends: "appending cb \<Longrightarrow> extends s (upload_on cb st e s)"
  by (cases e) (auto intro: extends_log extends_trans [OF extends_log appendingD] appendingD)

lemma download_on_extends: "appending cb \<Longrightarrow> extends s (download_on cb st e s)"
proof (cases e)
  case (Res r)
  assume "appending cb"
  with Res show ?thesis
    by (cases r) (auto intro: extends_log appendingD)
next
  case (MkdirDone err)
  then show ?thesis
    by (cases err) (auto intro: extends_log extends_refl)
next
  case FileClose
  assume "appending cb"
  with FileClose show ?thesis
    by (auto intro: extends_trans [OF extends_log appendingD])
qed

lemma runner_extends:
  assumes "\<And>e s. extends s (h e s)"
  shows "extends s (deliver h evs ((effect x (log m t s))\<lparr>world := w\<rparr>))"
proof -
  have "extends s ((effect x (log m t s))\<lparr>world := w\<rparr>)"
    by (simp add: extends_def effect_def log_def)
  moreover have "extends ((effect x (log m t s))\<lparr>world := w\<rparr>)
      (deliver h evs ((effect x (log m t s))\<lparr>world := w\<rparr>))"
    by (rule deliver_extends) (rule assms)
  ultimately show ?thesis by (rule extends_trans)
qed

lemma mongoDump_extends: "appending cb \<Longrightarrow> extends s (mongoDump env opts dir (Some cb) s)"
  by (simp add: mongoDump_def Let_def or_noop_def split_beta runner_extends mongodump_on_extends)

lemma mongoRestore_extends: "appending cb \<Longrightarrow> extends s (mongoRestore env opts dir (Some cb) s)"
  by (simp add: mongoRestore_def Let_def or_noop_def split_beta runner_extends mongorestore_on_extends)

lemma compressDirectory_extends:
  "appending cb \<Longrightarrow> extends s (compressDirectory env dir inp outp (Some cb) s)"
  by (simp add: compressDirectory_def Let_def or_noop_def split_beta runner_extends compress_on_extends)

lemma uncompressArchive_extends:
  "appending cb \<Longrightarrow> extends s (uncompressArchive env inp outp (Some cb) s)"
  by (simp add: uncompressArchive_def Let_def or_noop_def split_beta runner_extends uncompress_on_extends)

lemma sendToS3_extends:
  assumes "appending cb"
  shows "extends s (sendToS3 env opts dir target (Some cb) s)"
proof -
  let ?r = "knox_putFile env (KnoxClient (key opts) (secret opts) (bucket opts)) (path_join env dir target)
                 (path_join env (if truthy (destination opts) then the (destination opts) else ''/'') target)
                 (world s)"
  let ?m = "''Attemping to upload '' @ target @ '' to the '' @ bucket opts @ '' s3 bucket''"
  let ?x = "PutFile (KnoxClient (key opts) (secret opts) (bucket opts)) (path_join env dir target)
                 (path_join env (if truthy (destination opts) then the (destination opts) else ''/'') target)"
  let ?s2 = "(effect ?x (log ?m NoTag s))\<lparr>world := snd ?r\<rparr>"
  have s2: "extends s ?s2"
    by (simp add: extends_def effect_def log_def)
  show ?thesis
  proof (cases "fst ?r")
    case (Inl err)
    then have "sendToS3 env opts dir target (Some cb) s = cb (Some err) ?s2"
      by (simp add: sendToS3_def Let_def or_noop_def split_beta log_def effect_def)
    then show ?thesis
      using extends_trans [OF s2 appendingD [OF assms]] by simp
  next
    case (Inr res)
    then have "sendToS3 env opts dir target (Some cb) s =
        deliver (upload_on cb (statusCode res)) (events res) ?s2"
      by (simp add: sendToS3_def Let_def or_noop_def split_beta log_def effect_def)
    moreover have "extends ?s2 (deliver (upload_on cb (statusCode res)) (events res) ?s2)"
      by (rule deliver_extends) (rule upload_on_extends [OF assms])
    ultimately show ?thesis
      using extends_trans [OF s2] by simp
  qed
qed

lemma armed_appending:
  assumes "appending final"
    and "\<And>s. extends s (series_from ts final s)"
  shows "appending (armed ts final)"
  unfolding appending_def
proof (intro allI)
  fix r and s :: "'a state"
  show "extends s (armed ts final r s)"
  proof (cases r)
    case None
    then show ?thesis by (simp add: armed_def assms(2))
  next
    case (Some e)
    then show ?thesis by (simp add: armed_def appendingD [OF assms(1)])
  qed
qed

lemma series_from_Cons: "series_from (t # ts) final s = t (Some (armed ts final)) s"
  by (simp add: armed_def)

lemma series_from_extends:
  assumes "appending final"
    and "\<And>t cb s. t \<in> set ts \<Longrightarrow> appending cb \<Longrightarrow> extends s (t (Some cb) s)"
  shows "extends s (series_from ts final s)"
  using assms(2)
proof (induction ts arbitrary: s)
  case Nil
  show ?case by (simp add: appendingD [OF assms(1)])
next
  case (Cons t ts)
  have tail: "\<And>s. extends s (series_from ts final s)"
    by (rule Cons.IH) (simp add: Cons.prems)
  have "appending (armed ts final)"
    using assms(1) tail by (rule armed_appending)
  then have "extends s (t (Some (armed ts final)) s)"
    by (intro Cons.prems) simp_all
  then show ?case by (simp only: series_from_Cons)
qed

lemma series_from_head:
  assumes "appending final"
    and "\<And>t cb s. t \<in> set ts \<Longrightarrow> appending cb \<Longrightarrow> extends s (t (Some cb) s)"
    and "\<And>cb. appending cb \<Longrightarrow> P (t (Some cb) s)"
  shows "P (series_from (t # ts) final s)"
  unfolding series_from_Cons
proof (rule assms(3))
  show "appending (armed ts final)"
    using assms(1)
  proof (rule armed_appending)
    fix s' :: "'a state"
    show "extends s' (series_from ts final s')"
      using assms(1)
    proof (rule series_from_extends)
      fix u and k :: "'a callback" and s'' :: "'a state"
      assume "u \<in> set ts" "appending k"
      then show "extends s'' (u (Some k) s'')" by (rule assms(2))
    qed
  qed
qed

lemma final_appending:
  "appending (\<lambda>err s'. report err (case err of Some e \<Rightarrow> log (f e) t s' | None \<Rightarrow> log m t' s'))"
  unfolding appending_def
proof (intro allI)
  fix r and s :: "'a state"
  show "extends s (report r (case r of Some e \<Rightarrow> log (f e) t s | None \<Rightarrow> log m t' s))"
    by (cases r) (simp_all add: extends_def report_def effect_def log_def)
qed

lemma removeRF_present_prefix:
  assumes "fs_exists env p (world s)" and "appending cb"
  shows "\<exists>xs. out (removeRF env p (Some cb) s) =
     out s @ [FsExists p, Logged ''warn'' (strip_newline (''[warn] Removing '' @ p)), Exec (''rm -rf '' @ p)] @ xs"
proof -
  let ?s1 = "s\<lparr>out := out s @ [FsExists p, Logged ''warn'' (strip_newline (''[warn] Removing '' @ p)),
                             Exec (''rm -rf '' @ p)],
           world := snd (child_exec env (''rm -rf '' @ p) (world s))\<rparr>"
  have "extends ?s1 (cb (fst (child_exec env (''rm -rf '' @ p) (world s))) ?s1)"
    by (rule appendingD [OF assms(2)])
  then show ?thesis
    unfolding removeRF_present [OF assms(1)] by (simp add: extends_def)
qed

lemma sync_tasks_extend:
  assumes "t \<in> set [removeRF env a, mongoDump env cfg b, compressDirectory env c d e, sendToS3 env s3 f g]"
    and "appending cb"
  shows "extends s (t (Some cb) s)"
  using assms
  by (auto intro: removeRF_extends mongoDump_extends compressDirectory_extends sendToS3_extends)

lemma take_drop_prefix: "ys = xs @ pre @ rest \<Longrightarrow> n = length pre \<Longrightarrow> take n (drop (length xs) ys) = pre"
  by simp

text \<open>
  Claim C10. For every target path that exists, the command that removeRF hands to the
  shell is \<open>rm -rf\<close>, a blank and the path, character for character: nothing is
  quoted or escaped. In the backup pipeline the first path is the join of the staging
  root and the database name, and the second the join of the staging root and the
  archive name, which begins with the database name: whatever blanks or shell
  metacharacters the database name holds are part of the command line of the cleanup.
\<close>

theorem cleanup_command_unquoted:
  "(fs_exists env p (world s) \<longrightarrow>
      out (removeRF env p (Some report) s) =
        out s @ [FsExists p, Logged ''warn'' (strip_newline (''[warn] Removing '' @ p)),
                 Exec (''rm -rf '' @ p),
                 Called (fst (child_exec env (''rm -rf '' @ p) (world s)))])
   \<and> (fs_exists env (path_join env (path_join env (os_tmpDir env) ''mongodb_s3_backup'') (db cfg)) (world s) \<longrightarrow>
      take 3 (drop (length (out s)) (out (sync env cfg s3 (Some report) s))) =
        [FsExists (path_join env (path_join env (os_tmpDir env) ''mongodb_s3_backup'') (db cfg)),
         Logged ''warn'' (strip_newline (''[warn] Removing '' @
           path_join env (path_join env (os_tmpDir env) ''mongodb_s3_backup'') (db cfg))),
         Exec (''rm -rf '' @ path_join env (path_join env (os_tmpDir env) ''mongodb_s3_backup'') (db cfg))])
   \<and> (\<not> fs_exists env (path_join env (path_join env (os_tmpDir env) ''mongodb_s3_backup'') (db cfg)) (world s) \<and>
       fs_exists env (path_join env (path_join env (os_tmpDir env) ''mongodb_s3_backup'')
          (getArchiveName (now env (world s)) (db cfg))) (world s) \<longrightarrow>
      take 4 (drop (length (out s)) (out (sync env cfg s3 (Some report) s))) =
        [FsExists (path_join env (path_join env (os_tmpDir env) ''mongodb_s3_backup'') (db cfg)),
         FsExists (path_join env (path_join env (os_tmpDir env) ''mongodb_s3_backup'')
           (getArchiveName (now env (world s)) (db cfg))),
         Logged ''warn'' (strip_newline (''[warn] Removing '' @
           path_join env (path_join env (os_tmpDir env) ''mongodb_s3_backup'')
             (getArchiveName (now env (world s)) (db cfg)))),
         Exec (''rm -rf '' @ path_join env (path_join env (os_tmpDir env) ''mongodb_s3_backup'')
           (getArchiveName (now env (world s)) (db cfg)))])"
proof (intro conjI impI)
  assume "fs_exists env p (world s)"
  then show "out (removeRF env p (Some report) s) =
        out s @ [FsExists p, Logged ''warn'' (strip_newline (''[warn] Removing '' @ p)),
                 Exec (''rm -rf '' @ p),
                 Called (fst (child_exec env (''rm -rf '' @ p) (world s)))]"
    by (simp add: removeRF_present report_def effect_def)
next
  let ?tmp = "path_join env (os_tmpDir env) ''mongodb_s3_backup''"
  let ?bd = "path_join env ?tmp (db cfg)"
  let ?an = "getArchiveName (now env (world s)) (db cfg)"
  let ?ap = "path_join env ?tmp ?an"
  let ?final = "\<lambda>err s'. report err
                (case err of
                   Some e \<Rightarrow> log (error_string e) (Tag ''error'') s'
                 | None \<Rightarrow> log (''Successfully backed up '' @ db cfg) NoTag s')"
  let ?rest2 = "[mongoDump env cfg ?tmp, compressDirectory env ?tmp (db cfg) ?an, sendToS3 env s3 ?tmp ?an]"
  let ?rest = "removeRF env ?ap # ?rest2"
  have sync_eq: "sync env cfg s3 (Some report) s = series_from (removeRF env ?bd # ?rest) ?final s"
    by (simp add: sync_def series_def Let_def or_noop_def)
  have rest_ok: "\<And>t cb s. t \<in> set ?rest \<Longrightarrow> appending cb \<Longrightarrow> extends s (t (Some cb) s)"
    by (rule sync_tasks_extend)
  have rest_ok': "\<And>t cb s. t \<in> set ?rest2 \<Longrightarrow> appending cb \<Longrightarrow> extends s (t (Some cb) s)"
    by (rule rest_ok) simp
  {
    assume ex: "fs_exists env ?bd (world s)"
    have "\<exists>xs. out (series_from (removeRF env ?bd # ?rest) ?final s) =
        out s @ [FsExists ?bd, Logged ''warn'' (strip_newline (''[warn] Removing '' @ ?bd)),
                   Exec (''rm -rf '' @ ?bd)] @ xs"
    proof (rule series_from_head [where P = "\<lambda>x. \<exists>xs. out x =
        out s @ [FsExists ?bd, Logged ''warn'' (strip_newline (''[warn] Removing '' @ ?bd)),
                   Exec (''rm -rf '' @ ?bd)] @ xs"])
      show "appending ?final" by (rule final_appending)
      show "\<And>t cb s. t \<in> set ?rest \<Longrightarrow> appending cb \<Longrightarrow> extends s (t (Some cb) s)"
        by (rule rest_ok)
      fix cb :: "'a callback"
      assume "appending cb"
      then show "\<exists>xs. out (removeRF env ?bd (Some cb) s) =
        out s @ [FsExists ?bd, Logged ''warn'' (strip_newline (''[warn] Removing '' @ ?bd)),
                   Exec (''rm -rf '' @ ?bd)] @ xs"
        by (intro removeRF_present_prefix) (simp_all add: ex)
    qed
    then obtain xs where "out (sync env cfg s3 (Some report) s) =
        out s @ [FsExists ?bd, Logged ''warn'' (strip_newline (''[warn] Removing '' @ ?bd)),
                   Exec (''rm -rf '' @ ?bd)] @ xs"
      unfolding sync_eq by auto
    then show "take 3 (drop (length (out s)) (out (sync env cfg s3 (Some report) s))) =
        [FsExists ?bd, Logged ''warn'' (strip_newline (''[warn] Removing '' @ ?bd)), Exec (''rm -rf '' @ ?bd)]"
      by (rule take_drop_prefix) simp
  }
  {
    assume ex: "\<not> fs_exists env ?bd (world s) \<and> fs_exists env ?ap (world s)"
    let ?s1 = "s\<lparr>out := out s @ [FsExists ?bd]\<rparr>"
    have one: "series_from (removeRF env ?bd # ?rest) ?final s =
        series_from ?rest ?final ?s1"
      using ex by (simp add: removeRF_absent series_from_Cons armed_def del: series_from.simps)
    have "\<exists>xs. out (series_from ?rest ?final ?s1) =
        out ?s1 @
          [FsExists ?ap, Logged ''warn'' (strip_newline (''[warn] Removing '' @ ?ap)),
           Exec (''rm -rf '' @ ?ap)] @ xs"
    proof (rule series_from_head [where P = "\<lambda>x. \<exists>xs. out x =
        out ?s1 @
          [FsExists ?ap, Logged ''warn'' (strip_newline (''[warn] Removing '' @ ?ap)),
           Exec (''rm -rf '' @ ?ap)] @ xs"])
      show "appending ?final" by (rule final_appending)
      show "\<And>t cb s. t \<in> set ?rest2 \<Longrightarrow> appending cb \<Longrightarrow> extends s (t (Some cb) s)"
        by (rule rest_ok')
      fix cb :: "'a callback"
      assume "appending cb"
      then show "\<exists>xs. out (removeRF env ?ap (Some cb) ?s1) =
        out ?s1 @
          [FsExists ?ap, Logged ''warn'' (strip_newline (''[warn] Removing '' @ ?ap)),
           Exec (''rm -rf '' @ ?ap)] @ xs"
        by (intro removeRF_present_prefix) (simp_all add: ex)
    qed
    then obtain xs where "out (sync env cfg s3 (Some report) s) =
        out s @ [FsExists ?bd, FsExists ?ap, Logged ''warn'' (strip_newline (''[warn] Removing '' @ ?ap)),
           Exec (''rm -rf '' @ ?ap)] @ xs"
      unfolding sync_eq one by auto
    then show "take 4 (drop (length (out s)) (out (sync env cfg s3 (Some report) s))) =
        [FsExists ?bd, FsExists ?ap, Logged ''warn'' (strip_newline (''[warn] Removing '' @ ?ap)),
           Exec (''rm -rf '' @ ?ap)]"
      by (rule take_drop_prefix) simp
  }
qed

theorem cleanup_command_unquoted_witness:
  "fs_exists (example_env (\<lambda>cmd. []) (Inl (Error ''unused'')) (Inl (Error ''unused'')))
      ''/tmp/mongodb_s3_backup/a; echo b'' [''/tmp/mongodb_s3_backup/a; echo b'']
   \<and> take 3 (out (sync (example_env (\<lambda>cmd. []) (Inl (Error ''unused'')) (Inl (Error ''unused'')))
        \<lparr>host = ''localhost'', port = 27017, username = None, password = None, db = ''a; echo b''\<rparr>
        \<lparr>key = ''k'', secret = ''s'', bucket = ''b'', destination = None\<rparr>
        (Some report) (start [''/tmp/mongodb_s3_backup/a; echo b'']))) =
      [FsExists ''/tmp/mongodb_s3_backup/a; echo b'',
       Logged ''warn'' ''[warn] Removing /tmp/mongodb_s3_backup/a; echo b'',
       Exec ''rm -rf /tmp/mongodb_s3_backup/a; echo b'']"
proof -
  let ?env = "example_env (\<lambda>cmd. []) (Inl (Error ''unused'')) (Inl (Error ''unused''))"
  let ?cfg = "\<lparr>host = ''localhost'', port = 27017, username = None, password = None, db = ''a; echo b''\<rparr>"
  let ?s3 = "\<lparr>key = ''k'', secret = ''s'', bucket = ''b'', destination = None\<rparr>"
  let ?p = "''/tmp/mongodb_s3_backup/a; echo b''"
  let ?s = "start [?p]"
  have a: "fs_exists ?env ?p [?p]"
    by (simp add: example_env_def)
  have p: "path_join ?env (path_join ?env (os_tmpDir ?env) ''mongodb_s3_backup'') (db ?cfg) = ?p"
    by (simp add: example_env_def)
  have h: "fs_exists ?env (path_join ?env (path_join ?env (os_tmpDir ?env) ''mongodb_s3_backup'') (db ?cfg))
      (world ?s)"
    unfolding p by (simp add: example_env_def start_def)
  have "take 3 (drop (length (out ?s)) (out (sync ?env ?cfg ?s3 (Some report) ?s))) =
        [FsExists (path_join ?env (path_join ?env (os_tmpDir ?env) ''mongodb_s3_backup'') (db ?cfg)),
         Logged ''warn'' (strip_newline (''[warn] Removing '' @
           path_join ?env (path_join ?env (os_tmpDir ?env) ''mongodb_s3_backup'') (db ?cfg))),
         Exec (''rm -rf '' @ path_join ?env (path_join ?env (os_tmpDir ?env) ''mongodb_s3_backup'') (db ?cfg))]"
    using cleanup_command_unquoted [of ?env _ ?s ?cfg ?s3] h by blast
  then have b: "take 3 (out (sync ?env ?cfg ?s3 (Some report) ?s)) =
      [FsExists ?p, Logged ''warn'' ''[warn] Removing /tmp/mongodb_s3_backup/a; echo b'',
       Exec ''rm -rf /tmp/mongodb_s3_backup/a; echo b'']"
    unfolding p by (simp add: start_def strip_newline_plain)
  show ?thesis by (intro conjI a b)
qed

section \<open>The two pipelines\<close>

lemma armed_fail: "armed ts final (Some e) s = final (Some e) s"
  by (simp add: armed_def)

lemma armed_next: "armed ts final None s = series_from ts final s"
  by (simp add: armed_def)

lemma series_pipeline:
  assumes "pipeline ts v r v'"
  shows "world s = fst v \<Longrightarrow> out s = snd v \<Longrightarrow>
     \<exists>s'. series_from ts final s = final r s' \<and> world s' = fst v' \<and> out s' = snd v'"
  using assms
proof (induction arbitrary: s rule: pipeline.induct)
  case (pipeline_done v)
  then show ?case by auto
next
  case (pipeline_failed t v e v' ts)
  let ?s1 = "s\<lparr>world := fst v', out := snd v'\<rparr>"
  have "t (Some (armed ts final)) s = armed ts final (Some e) ?s1"
    using pipeline_failed by (simp add: reports_def)
  also have "\<dots> = final (Some e) ?s1"
    by (rule armed_fail)
  finally have eq: "series_from (t # ts) final s = final (Some e) ?s1"
    unfolding series_from_Cons .
  show ?case
    unfolding eq by (rule exI [of _ ?s1]) simp
next
  case (pipeline_next t v v' ts r v'')
  let ?s1 = "s\<lparr>world := fst v', out := snd v'\<rparr>"
  have "t (Some (armed ts final)) s = armed ts final None ?s1"
    using pipeline_next by (simp add: reports_def)
  also have "\<dots> = series_from ts final ?s1"
    by (rule armed_next)
  finally have eq: "series_from (t # ts) final s = series_from ts final ?s1"
    unfolding series_from_Cons .
  have "\<exists>s'. series_from ts final ?s1 = final r s' \<and> world s' = fst v'' \<and> out s' = snd v''"
    by (intro pipeline_next.IH) simp_all
  then show ?case unfolding eq .
qed


lemma quiet_Nil: "quiet []"
  by (simp add: quiet_def calls_def launches_def)

lemma quiet_append: "quiet a \<Longrightarrow> quiet b \<Longrightarrow> quiet (a @ b)"
  by (simp add: quiet_def calls_append launches_def)

lemma quiet_single:
  "quiet [log_line m t]" "quiet [Logged a b]" "quiet [FsExists p]" "quiet [Exec c]"
  "quiet [Mkdir p]" "quiet [CreateWriteStream p]"
  by (simp_all add: quiet_def calls_def launches_def log_line_def Let_def)

lemma quiet_Cons: "quiet [x] \<Longrightarrow> quiet xs \<Longrightarrow> quiet (x # xs)"
  using quiet_append [of "[x]" xs] by simp

lemma launches_append: "launches (a @ b) = launches a @ launches b"
  by (simp add: launches_def)

lemma deliver_append: "deliver h (a @ b) s = deliver h b (deliver h a s)"
  by (induction a arbitrary: s) simp_all

lemma deliver_quiet:
  assumes step: "\<And>e s. e \<in> set evs \<Longrightarrow> I s \<Longrightarrow> \<exists>xs. h e s = effects xs s \<and> quiet xs"
    and inv: "\<And>xs s. I s \<Longrightarrow> I (effects xs s)"
    and "I s"
  shows "\<exists>xs. deliver h evs s = effects xs s \<and> quiet xs"
  using step \<open>I s\<close>
proof (induction evs arbitrary: s)
  case Nil
  have "deliver h [] s = effects [] s" by (simp add: effects_Nil)
  then show ?case using quiet_Nil by blast
next
  case (Cons e evs)
  obtain xs where xs: "h e s = effects xs s" "quiet xs"
    using Cons.prems(1) [of e s] Cons.prems(2) by auto
  have "I (effects xs s)" using Cons.prems(2) by (rule inv)
  then obtain ys where ys: "deliver h evs (effects xs s) = effects ys (effects xs s)" "quiet ys"
    using Cons.IH [of "effects xs s"] Cons.prems(1) by auto
  have "deliver h (e # evs) s = effects (xs @ ys) s"
    by (simp add: xs ys effects_effects)
  then show ?case using quiet_append [OF xs(2) ys(2)] by blast
qed


lemma exit_codes_Cons:
  "exit_codes (Exit c # evs) = c # exit_codes evs"
  "exit_codes (StdoutData d # evs) = exit_codes evs"
  "exit_codes (StderrData d # evs) = exit_codes evs"
  by (simp_all add: exit_codes_def)

lemma single_exit_split:
  "exit_codes evs = [c] \<Longrightarrow>
   \<exists>pre post. evs = pre @ Exit c # post \<and> exit_codes pre = [] \<and> exit_codes post = []"
proof (induction evs)
  case Nil
  then show ?case by (simp add: exit_codes_def)
next
  case (Cons e evs)
  show ?case
  proof (cases e)
    case (Exit c')
    with Cons.prems have "c' = c" "exit_codes evs = []" by (simp_all add: exit_codes_Cons)
    with Exit have "e # evs = [] @ Exit c # evs \<and> exit_codes [] = [] \<and> exit_codes evs = []"
      by (simp add: exit_codes_def)
    then show ?thesis by blast
  next
    case (StdoutData d)
    with Cons.prems have "exit_codes evs = [c]" by (simp add: exit_codes_Cons)
    then obtain pre post where "evs = pre @ Exit c # post" "exit_codes pre = []" "exit_codes post = []"
      using Cons.IH by blast
    with StdoutData have "e # evs = (e # pre) @ Exit c # post \<and> exit_codes (e # pre) = [] \<and>
        exit_codes post = []"
      by (simp add: exit_codes_Cons)
    then show ?thesis by blast
  next
    case (StderrData d)
    with Cons.prems have "exit_codes evs = [c]" by (simp add: exit_codes_Cons)
    then obtain pre post where "evs = pre @ Exit c # post" "exit_codes pre = []" "exit_codes post = []"
      using Cons.IH by blast
    with StderrData have "e # evs = (e # pre) @ Exit c # post \<and> exit_codes (e # pre) = [] \<and>
        exit_codes post = []"
      by (simp add: exit_codes_Cons)
    then show ?thesis by blast
  qed
qed


lemma no_exit: "exit_codes pre = [] \<Longrightarrow> e \<in> set pre \<Longrightarrow> e \<noteq> Exit c"
  by (induction pre) (auto simp: exit_codes_def split: if_splits)

lemma mongodump_pre_quiet:
  assumes "exit_codes pre = []"
  shows "\<exists>xs. deliver (mongodump_on cb) pre s = effects xs s \<and> quiet xs"
proof (rule deliver_quiet [where I = "\<lambda>s. True"])
  fix e and s :: "'a state"
  assume "e \<in> set pre"
  then have ne: "\<And>c. e \<noteq> Exit c" using no_exit [OF assms] by blast
  show "\<exists>xs. mongodump_on cb e s = effects xs s \<and> quiet xs"
  proof (cases e)
    case (StdoutData d)
    then show ?thesis using quiet_single(1) by (auto simp: log_effects)
  next
    case (StderrData d)
    then show ?thesis using quiet_single(1) by (auto simp: log_effects)
  next
    case (Exit c)
    with ne show ?thesis by blast
  qed
qed simp_all


lemma removeRF_ok:
  assumes "fs_exists env p (world s) \<longrightarrow> fst (child_exec env (''rm -rf '' @ p) (world s)) = None"
  shows "\<exists>s1 xs. (\<forall>cb. removeRF env p (Some cb) s = cb None s1) \<and>
     out s1 = out s @ xs \<and> quiet xs"
proof (cases "fs_exists env p (world s)")
  case True
  let ?xs = "[FsExists p, Logged ''warn'' (strip_newline (''[warn] Removing '' @ p)), Exec (''rm -rf '' @ p)]"
  let ?s1 = "s\<lparr>out := out s @ ?xs, world := snd (child_exec env (''rm -rf '' @ p) (world s))\<rparr>"
  have none: "fst (child_exec env (''rm -rf '' @ p) (world s)) = None"
    using True assms by blast
  have a: "\<forall>cb. removeRF env p (Some cb) s = cb None ?s1"
    unfolding removeRF_present [OF True] none by (rule allI) (rule refl)
  have q: "quiet ?xs"
    by (simp add: quiet_def calls_def launches_def)
  show ?thesis
  proof (intro exI conjI)
    show "\<forall>cb. removeRF env p (Some cb) s = cb None ?s1" by (rule a)
    show "out ?s1 = out s @ ?xs" by simp
    show "quiet ?xs" by (rule q)
  qed
next
  case False
  let ?s1 = "s\<lparr>out := out s @ [FsExists p]\<rparr>"
  have a: "\<forall>cb. removeRF env p (Some cb) s = cb None ?s1"
    unfolding removeRF_absent [OF False] by (rule allI) (rule refl)
  show ?thesis
  proof (intro exI conjI)
    show "\<forall>cb. removeRF env p (Some cb) s = cb None ?s1" by (rule a)
    show "out ?s1 = out s @ [FsExists p]" by simp
    show "quiet [FsExists p]" by (rule quiet_single)
  qed
qed





lemma deliver_effects_on:
  assumes "\<And>e s. e \<in> set evs \<Longrightarrow> h e s = effects (f e) s"
  shows "deliver h evs s = effects (concat (map f evs)) s"
  using assms
proof (induction evs arbitrary: s)
  case Nil
  show ?case by (simp add: effects_Nil)
next
  case (Cons e evs)
  have "deliver h (e # evs) s = deliver h evs (h e s)" by simp
  also have "\<dots> = effects (concat (map f evs)) (h e s)"
    by (rule Cons.IH) (simp add: Cons.prems)
  also have "h e s = effects (f e) s" by (rule Cons.prems) simp
  finally show ?case by (simp add: effects_effects)
qed

lemma mongoDump_split:
  assumes "fst (child_spawn env ''mongodump'' (mongoDumpOptions opts dir) None (world s)) = pre @ Exit c # post"
    and "exit_codes pre = []"
  shows "\<exists>s3 xs. mongoDump env opts dir (Some cb) s =
        deliver (mongodump_on cb) post (mongodump_on cb (Exit c) s3) \<and>
      out s3 = out s @ [log_line (''Starting mongodump of '' @ db opts) (Tag ''info''),
                        Spawn ''mongodump'' (mongoDumpOptions opts dir) None] @ xs \<and> quiet xs"
proof -
  let ?r = "child_spawn env ''mongodump'' (mongoDumpOptions opts dir) None (world s)"
  let ?s2 = "(effects [log_line (''Starting mongodump of '' @ db opts) (Tag ''info''),
                        Spawn ''mongodump'' (mongoDumpOptions opts dir) None] s)\<lparr>world := snd ?r\<rparr>"
  have d: "mongoDump env opts dir (Some cb) s = deliver (mongodump_on cb) (pre @ Exit c # post) ?s2"
    using assms(1)
    by (simp add: mongoDump_def Let_def or_noop_def split_beta log_effects effect_effects effects_effects
        effects_sel)
  obtain xs where xs: "deliver (mongodump_on cb) pre ?s2 = effects xs ?s2" "quiet xs"
    using mongodump_pre_quiet [OF assms(2)] by blast
  have "mongoDump env opts dir (Some cb) s =
      deliver (mongodump_on cb) post (mongodump_on cb (Exit c) (effects xs ?s2))"
    unfolding d deliver_append xs(1) by simp
  moreover have "out (effects xs ?s2) = out s @ [log_line (''Starting mongodump of '' @ db opts) (Tag ''info''),
                        Spawn ''mongodump'' (mongoDumpOptions opts dir) None] @ xs"
    by (simp add: effects_def)
  ultimately show ?thesis using xs(2) by blast
qed


lemma sync_unfold:
  "sync env cfg s3 (Some cb) s =
     series_from
       [removeRF env (path_join env (path_join env (os_tmpDir env) ''mongodb_s3_backup'') (db cfg)),
        removeRF env (path_join env (path_join env (os_tmpDir env) ''mongodb_s3_backup'')
          (getArchiveName (now env (world s)) (db cfg))),
        mongoDump env cfg (path_join env (os_tmpDir env) ''mongodb_s3_backup''),
        compressDirectory env (path_join env (os_tmpDir env) ''mongodb_s3_backup'') (db cfg)
          (getArchiveName (now env (world s)) (db cfg)),
        sendToS3 env s3 (path_join env (os_tmpDir env) ''mongodb_s3_backup'')
          (getArchiveName (now env (world s)) (db cfg))]
       (\<lambda>err s'. cb err
                (case err of
                   Some e \<Rightarrow> log (error_string e) (Tag ''error'') s'
                 | None \<Rightarrow> log (''Successfully backed up '' @ db cfg) NoTag s'))
       s"
  by (simp add: sync_def series_def Let_def or_noop_def del: series_from.simps)

lemma sync_refines:
  assumes "pipeline
       [removeRF env (path_join env (path_join env (os_tmpDir env) ''mongodb_s3_backup'') (db cfg)),
        removeRF env (path_join env (path_join env (os_tmpDir env) ''mongodb_s3_backup'')
          (getArchiveName (now env (world s)) (db cfg))),
        mongoDump env cfg (path_join env (os_tmpDir env) ''mongodb_s3_backup''),
        compressDirectory env (path_join env (os_tmpDir env) ''mongodb_s3_backup'') (db cfg)
          (getArchiveName (now env (world s)) (db cfg)),
        sendToS3 env s3 (path_join env (os_tmpDir env) ''mongodb_s3_backup'')
          (getArchiveName (now env (world s)) (db cfg))]
       (world s, out s) r (w', o')"
  shows "\<exists>s'. sync env cfg s3 (Some cb) s = cb r s' \<and> world s' = w' \<and>
     out s' = o' @ [case r of
                      Some e \<Rightarrow> Logged ''error'' (strip_newline (''[error] '' @ error_string e))
                    | None \<Rightarrow> Logged ''info'' (strip_newline (''[info] Successfully backed up '' @ db cfg))]"
proof -
  let ?final = "\<lambda>err s'. cb err
                (case err of
                   Some e \<Rightarrow> log (error_string e) (Tag ''error'') s'
                 | None \<Rightarrow> log (''Successfully backed up '' @ db cfg) NoTag s')"
  obtain s1 where s1: "sync env cfg s3 (Some cb) s = ?final r s1" "world s1 = w'" "out s1 = o'"
    unfolding sync_unfold
    using series_pipeline [OF assms, of s ?final] by auto
  show ?thesis
  proof (cases r)
    case None
    show ?thesis
      by (rule exI [of _ "log (''Successfully backed up '' @ db cfg) NoTag s1"])
         (simp add: s1 None log_effects effects_sel log_line_levels)
  next
    case (Some e)
    show ?thesis
      by (rule exI [of _ "log (error_string e) (Tag ''error'') s1"])
         (simp add: s1 Some log_effects effects_sel log_line_levels)
  qed
qed





lemma code_one: "code_string (Some 1) = ''1''"
  by (simp add: code_string_def number_string_small)

lemma launches_simps:
  "launches [] = []" "launches (Called r # es) = launches es" "launches (log_line m t # es) = launches es"
  "launches (Logged l b # es) = launches es" "launches (Spawn c as d # es) = Spawn c as d # launches es"
  "launches (GetFile k x # es) = GetFile k x # launches es"
  "launches (PutFile k x y # es) = PutFile k x y # launches es"
  "launches (FsExists x # es) = launches es" "launches (Exec x # es) = launches es"
  "launches (Mkdir x # es) = launches es" "launches (CreateWriteStream x # es) = launches es"
  by (simp_all add: launches_def log_line_def Let_def)


lemma sync_dump_fails:
  assumes rm1: "\<forall>w. fs_exists env (path_join env (path_join env (os_tmpDir env) ''mongodb_s3_backup'') (db cfg)) w \<longrightarrow>
        fst (child_exec env (''rm -rf '' @
          path_join env (path_join env (os_tmpDir env) ''mongodb_s3_backup'') (db cfg)) w) = None"
    and rm2: "\<forall>w. fs_exists env (path_join env (path_join env (os_tmpDir env) ''mongodb_s3_backup'')
          (getArchiveName (now env (world s)) (db cfg))) w \<longrightarrow>
        fst (child_exec env (''rm -rf '' @
          path_join env (path_join env (os_tmpDir env) ''mongodb_s3_backup'')
            (getArchiveName (now env (world s)) (db cfg))) w) = None"
    and dump: "\<forall>w. exit_codes (fst (child_spawn env ''mongodump''
          (mongoDumpOptions cfg (path_join env (os_tmpDir env) ''mongodb_s3_backup'')) None w)) = [Some 1]"
  shows "calls (out (sync env cfg s3 (Some report) s)) =
           calls (out s) @ [Some (Error ''Mongodump exited with code 1'')]
       \<and> launches (out (sync env cfg s3 (Some report) s)) =
           launches (out s) @
           [Spawn ''mongodump'' (mongoDumpOptions cfg (path_join env (os_tmpDir env) ''mongodb_s3_backup'')) None]
       \<and> Logged ''error'' ''[error] Error: Mongodump exited with code 1''
           \<in> set (out (sync env cfg s3 (Some report) s))"
proof -
  let ?tmp = "path_join env (os_tmpDir env) ''mongodb_s3_backup''"
  let ?bd = "path_join env ?tmp (db cfg)"
  let ?an = "getArchiveName (now env (world s)) (db cfg)"
  let ?ap = "path_join env ?tmp ?an"
  let ?final = "\<lambda>err s'. report err
                (case err of
                   Some e \<Rightarrow> log (error_string e) (Tag ''error'') s'
                 | None \<Rightarrow> log (''Successfully backed up '' @ db cfg) NoTag s')"
  let ?t3 = "mongoDump env cfg ?tmp"
  let ?t4 = "compressDirectory env ?tmp (db cfg) ?an"
  let ?t5 = "sendToS3 env s3 ?tmp ?an"
  let ?e = "Error ''Mongodump exited with code 1''"
  let ?sp = "Spawn ''mongodump'' (mongoDumpOptions cfg ?tmp) None"
  let ?st = "log_line (''Starting mongodump of '' @ db cfg) (Tag ''info'')"
  \<comment> \<open>step 1\<close>
  obtain s1 xs1 where s1: "\<forall>cb. removeRF env ?bd (Some cb) s = cb None s1"
      "out s1 = out s @ xs1" "quiet xs1"
    using removeRF_ok [of env ?bd s] rm1 by blast
  have e1: "series_from [removeRF env ?bd, removeRF env ?ap, ?t3, ?t4, ?t5] ?final s =
      series_from [removeRF env ?ap, ?t3, ?t4, ?t5] ?final s1"
    unfolding series_from_Cons [of "removeRF env ?bd"] s1(1) [rule_format]
    by (rule armed_next)
  \<comment> \<open>step 2\<close>
  obtain s2 xs2 where s2: "\<forall>cb. removeRF env ?ap (Some cb) s1 = cb None s2"
      "out s2 = out s1 @ xs2" "quiet xs2"
    using removeRF_ok [of env ?ap s1] rm2 by blast
  have e2: "series_from [removeRF env ?ap, ?t3, ?t4, ?t5] ?final s1 =
      series_from [?t3, ?t4, ?t5] ?final s2"
    unfolding series_from_Cons [of "removeRF env ?ap"] s2(1) [rule_format]
    by (rule armed_next)
  \<comment> \<open>step 3\<close>
  let ?k = "armed [?t4, ?t5] ?final"
  obtain pre post where ev: "fst (child_spawn env ''mongodump'' (mongoDumpOptions cfg ?tmp) None (world s2)) =
      pre @ Exit (Some 1) # post" "exit_codes pre = []" "exit_codes post = []"
    using single_exit_split [OF dump [rule_format, of "world s2"]] by blast
  obtain u3 xs3 where u3: "mongoDump env cfg ?tmp (Some ?k) s2 =
        deliver (mongodump_on ?k) post (mongodump_on ?k (Exit (Some 1)) u3)"
      "out u3 = out s2 @ [?st, ?sp] @ xs3" "quiet xs3"
    using mongoDump_split [OF ev(1,2), of ?k] by blast
  let ?s4 = "effects [log_line (error_string ?e) (Tag ''error''), Called (Some ?e)] u3"
  have "mongodump_on ?k (Exit (Some 1)) u3 = ?k (Some ?e) u3"
    by (simp add: code_one)
  also have "\<dots> = ?final (Some ?e) u3"
    by (rule armed_fail)
  also have "\<dots> = ?s4"
    by (simp add: log_effects report_effects effects_effects)
  finally have e3: "mongodump_on ?k (Exit (Some 1)) u3 = ?s4" .
  obtain xs4 where xs4: "deliver (mongodump_on ?k) post ?s4 = effects xs4 ?s4" "quiet xs4"
    using mongodump_pre_quiet [OF ev(3), of ?k ?s4] by blast
  have res: "sync env cfg s3 (Some report) s = effects xs4 ?s4"
    unfolding sync_unfold e1 e2 series_from_Cons [of ?t3] u3(1) e3 xs4(1) ..
  have outR: "out (sync env cfg s3 (Some report) s) =
      out s @ xs1 @ xs2 @ [?st, ?sp] @ xs3 @ [log_line (error_string ?e) (Tag ''error''), Called (Some ?e)] @ xs4"
    unfolding res by (simp add: effects_sel u3 s2 s1)
  have q: "calls xs1 = []" "calls xs2 = []" "calls xs3 = []" "calls xs4 = []"
      "launches xs1 = []" "launches xs2 = []" "launches xs3 = []" "launches xs4 = []"
    using s1(3) s2(3) u3(3) xs4(2) by (simp_all add: quiet_def)

  have line: "log_line (error_string ?e) (Tag ''error'') = Logged ''error'' ''[error] Error: Mongodump exited with code 1''"
    by (simp add: log_line_levels strip_newline_plain)
  have a: "calls (out (sync env cfg s3 (Some report) s)) = calls (out s) @ [Some ?e]"
    unfolding outR by (simp add: calls_append calls_simps q)
  have b: "launches (out (sync env cfg s3 (Some report) s)) = launches (out s) @ [?sp]"
    unfolding outR by (simp add: launches_append launches_simps q)
  have c: "Logged ''error'' ''[error] Error: Mongodump exited with code 1'' \<in> set (out (sync env cfg s3 (Some report) s))"
    unfolding outR line by simp
  show ?thesis by (intro conjI a b c)
qed





lemma reports_removeRF_absent:
  assumes "\<not> fs_exists env p w"
  shows "reports (removeRF env p) (w, o') None (w, o' @ [FsExists p])"
  unfolding reports_def
proof (intro allI impI)
  fix cb :: "'a callback" and s :: "'a state"
  assume a: "world s = fst (w, o') \<and> out s = snd (w, o')"
  show "removeRF env p (Some cb) s =
      cb None (s\<lparr>world := fst (w, o' @ [FsExists p]), out := snd (w, o' @ [FsExists p])\<rparr>)"
  proof (cases s)
    case (fields w0 o0)
    with a have "w0 = w" "o0 = o'" by simp_all
    with fields assms show ?thesis by (simp add: removeRF_absent)
  qed
qed

lemma reports_removeRF_present:
  assumes "fs_exists env p w"
  shows "reports (removeRF env p) (w, o') (fst (child_exec env (''rm -rf '' @ p) w))
     (snd (child_exec env (''rm -rf '' @ p) w),
      o' @ [FsExists p, Logged ''warn'' (strip_newline (''[warn] Removing '' @ p)), Exec (''rm -rf '' @ p)])"
  unfolding reports_def
proof (intro allI impI)
  fix cb :: "'a callback" and s :: "'a state"
  assume a: "world s = fst (w, o') \<and> out s = snd (w, o')"
  show "removeRF env p (Some cb) s =
      cb (fst (child_exec env (''rm -rf '' @ p) w))
        (s\<lparr>world := fst (snd (child_exec env (''rm -rf '' @ p) w),
      o' @ [FsExists p, Logged ''warn'' (strip_newline (''[warn] Removing '' @ p)), Exec (''rm -rf '' @ p)]),
           out := snd (snd (child_exec env (''rm -rf '' @ p) w),
      o' @ [FsExists p, Logged ''warn'' (strip_newline (''[warn] Removing '' @ p)), Exec (''rm -rf '' @ p)])\<rparr>)"
  proof (cases s)
    case (fields w0 o0)
    with a have "w0 = w" "o0 = o'" by simp_all
    with fields assms show ?thesis by (simp add: removeRF_present)
  qed
qed

lemma mongodump_pre:
  assumes "exit_codes pre = []"
  shows "deliver (mongodump_on cb) pre s =
     effects (concat (map (runner_trace True ''Mongodump'' ''mongodump executed successfully'') pre)) s"
proof (rule deliver_effects_on)
  fix e and s :: "'a state"
  assume "e \<in> set pre"
  then have ne: "\<And>c. e \<noteq> Exit c" using no_exit [OF assms] by blast
  show "mongodump_on cb e s =
      effects (runner_trace True ''Mongodump'' ''mongodump executed successfully'' e) s"
  proof (cases e)
    case (StdoutData d)
    then show ?thesis by (simp add: log_effects)
  next
    case (StderrData d)
    then show ?thesis by (simp add: log_effects)
  next
    case (Exit c)
    with ne show ?thesis by blast
  qed
qed

lemma reports_mongoDump:
  assumes "child_spawn env ''mongodump'' (mongoDumpOptions opts dir) None w = (pre @ [Exit c], w')"
    and "exit_codes pre = []"
  shows "reports (mongoDump env opts dir) (w, o')
     (if c = Some 0 then None else Some (Error (''Mongodump exited with code '' @ code_string c)))
     (w', o' @ [log_line (''Starting mongodump of '' @ db opts) (Tag ''info''),
               Spawn ''mongodump'' (mongoDumpOptions opts dir) None] @
          concat (map (runner_trace True ''Mongodump'' ''mongodump executed successfully'') pre) @
          (if c = Some 0 then [log_line ''mongodump executed successfully'' (Tag ''info'')] else []))"
  unfolding reports_def
proof (intro allI impI)
  fix cb :: "'a callback" and s :: "'a state"
  assume "world s = fst (w, o') \<and> out s = snd (w, o')"
  then have s: "world s = w" "out s = o'" by simp_all
  let ?s2 = "(effects [log_line (''Starting mongodump of '' @ db opts) (Tag ''info''),
                        Spawn ''mongodump'' (mongoDumpOptions opts dir) None] s)\<lparr>world := w'\<rparr>"
  have "mongoDump env opts dir (Some cb) s = deliver (mongodump_on cb) (pre @ [Exit c]) ?s2"
    using assms(1) s
    by (simp add: mongoDump_def Let_def or_noop_def log_effects effect_effects effects_effects effects_sel)
  also have "\<dots> = mongodump_on cb (Exit c)
      (effects (concat (map (runner_trace True ''Mongodump'' ''mongodump executed successfully'') pre)) ?s2)"
    by (simp add: deliver_append mongodump_pre [OF assms(2)])
  finally show "mongoDump env opts dir (Some cb) s =
      cb (if c = Some 0 then None else Some (Error (''Mongodump exited with code '' @ code_string c)))
         (s\<lparr>world := fst (w', o' @ [log_line (''Starting mongodump of '' @ db opts) (Tag ''info''),
               Spawn ''mongodump'' (mongoDumpOptions opts dir) None] @
          concat (map (runner_trace True ''Mongodump'' ''mongodump executed successfully'') pre) @
          (if c = Some 0 then [log_line ''mongodump executed successfully'' (Tag ''info'')] else [])),
            out := snd (w', o' @ [log_line (''Starting mongodump of '' @ db opts) (Tag ''info''),
               Spawn ''mongodump'' (mongoDumpOptions opts dir) None] @
          concat (map (runner_trace True ''Mongodump'' ''mongodump executed successfully'') pre) @
          (if c = Some 0 then [log_line ''mongodump executed successfully'' (Tag ''info'')] else []))\<rparr>)"
    using s by (cases s) (simp add: effects_def log_def effect_def)
qed


text \<open>
  Claim C1. The backup runs its five steps in the order remove the backup directory,
  remove the archive file, dump, compress, upload, each step starting in the state the
  step before it left: whenever the steps, run in that order, report one after the
  other until the first error (or until all five succeeded), sync calls the caller's
  callback exactly with that first error (or with none), in the state right after the
  step that failed, with one more log line: the error at error level, or the success
  message that names the database. In particular, when the two removals succeed and
  the dump process exits once, with code 1, the callback is called once,
  with the error \<open>Mongodump exited with code 1\<close>, that error is logged, and the only
  thing started is the dump: neither the compression nor the upload.
\<close>

theorem backup_pipeline:
  "(let tmpDir = path_join env (os_tmpDir env) ''mongodb_s3_backup'';
        backupDir = path_join env tmpDir (db cfg);
        archiveName = getArchiveName (now env (world s)) (db cfg);
        archivePath = path_join env tmpDir archiveName
    in (pipeline
          [removeRF env backupDir,
           removeRF env archivePath,
           mongoDump env cfg tmpDir,
           compressDirectory env tmpDir (db cfg) archiveName,
           sendToS3 env s3 tmpDir archiveName]
          (world s, out s) r (w', o') \<longrightarrow>
        (\<exists>s'. sync env cfg s3 (Some cb) s = cb r s' \<and> world s' = w' \<and>
           out s' = o' @ [case r of
                           Some e \<Rightarrow> Logged ''error'' (strip_newline (''[error] '' @ error_string e))
                         | None \<Rightarrow> Logged ''info'' (strip_newline (''[info] Successfully backed up '' @ db cfg))]))
     \<and> ((\<forall>w. fs_exists env backupDir w \<longrightarrow> fst (child_exec env (''rm -rf '' @ backupDir) w) = None) \<and>
         (\<forall>w. fs_exists env archivePath w \<longrightarrow> fst (child_exec env (''rm -rf '' @ archivePath) w) = None) \<and>
         (\<forall>w. exit_codes (fst (child_spawn env ''mongodump'' (mongoDumpOptions cfg tmpDir) None w))
               = [Some 1]) \<longrightarrow>
        calls (out (sync env cfg s3 (Some report) s)) =
          calls (out s) @ [Some (Error ''Mongodump exited with code 1'')] \<and>
        launches (out (sync env cfg s3 (Some report) s)) =
          launches (out s) @ [Spawn ''mongodump'' (mongoDumpOptions cfg tmpDir) None] \<and>
        Logged ''error'' ''[error] Error: Mongodump exited with code 1''
          \<in> set (out (sync env cfg s3 (Some report) s))))"
  unfolding Let_def
proof (rule conjI; rule impI)
  assume "pipeline
       [removeRF env (path_join env (path_join env (os_tmpDir env) ''mongodb_s3_backup'') (db cfg)),
        removeRF env (path_join env (path_join env (os_tmpDir env) ''mongodb_s3_backup'')
          (getArchiveName (now env (world s)) (db cfg))),
        mongoDump env cfg (path_join env (os_tmpDir env) ''mongodb_s3_backup''),
        compressDirectory env (path_join env (os_tmpDir env) ''mongodb_s3_backup'') (db cfg)
          (getArchiveName (now env (world s)) (db cfg)),
        sendToS3 env s3 (path_join env (os_tmpDir env) ''mongodb_s3_backup'')
          (getArchiveName (now env (world s)) (db cfg))]
       (world s, out s) r (w', o')"
  then show "\<exists>s'. sync env cfg s3 (Some cb) s = cb r s' \<and> world s' = w' \<and>
     out s' = o' @ [case r of
                      Some e \<Rightarrow> Logged ''error'' (strip_newline (''[error] '' @ error_string e))
                    | None \<Rightarrow> Logged ''info'' (strip_newline (''[info] Successfully backed up '' @ db cfg))]"
    by (rule sync_refines)
next
  assume h: "(\<forall>w. fs_exists env (path_join env (path_join env (os_tmpDir env) ''mongodb_s3_backup'') (db cfg)) w \<longrightarrow>
        fst (child_exec env (''rm -rf '' @
          path_join env (path_join env (os_tmpDir env) ''mongodb_s3_backup'') (db cfg)) w) = None) \<and>
    (\<forall>w. fs_exists env (path_join env (path_join env (os_tmpDir env) ''mongodb_s3_backup'')
          (getArchiveName (now env (world s)) (db cfg))) w \<longrightarrow>
        fst (child_exec env (''rm -rf '' @
          path_join env (path_join env (os_tmpDir env) ''mongodb_s3_backup'')
            (getArchiveName (now env (world s)) (db cfg))) w) = None) \<and>
    (\<forall>w. exit_codes (fst (child_spawn env ''mongodump''
          (mongoDumpOptions cfg (path_join env (os_tmpDir env) ''mongodb_s3_backup'')) None w)) = [Some 1])"
  show "calls (out (sync env cfg s3 (Some report) s)) =
           calls (out s) @ [Some (Error ''Mongodump exited with code 1'')]
       \<and> launches (out (sync env cfg s3 (Some report) s)) =
           launches (out s) @
           [Spawn ''mongodump'' (mongoDumpOptions cfg (path_join env (os_tmpDir env) ''mongodb_s3_backup'')) None]
       \<and> Logged ''error'' ''[error] Error: Mongodump exited with code 1''
           \<in> set (out (sync env cfg s3 (Some report) s))"
    by (rule sync_dump_fails [OF h [THEN conjunct1] h [THEN conjunct2, THEN conjunct1]
        h [THEN conjunct2, THEN conjunct2]])
qed




theorem backup_pipeline_witness:
  "out (sync
      (example_env (\<lambda>cmd. [StderrData ''connection refused'', Exit (Some 1)])
         (Inl (Error ''unused'')) (Inl (Error ''unused'')))
      \<lparr>host = ''localhost'', port = 27017, username = None, password = None, db = ''mydb''\<rparr>
      \<lparr>key = ''k'', secret = ''s'', bucket = ''b'', destination = None\<rparr>
      (Some report) (start [])) =
     [FsExists ''/tmp/mongodb_s3_backup/mydb'',
      FsExists ''/tmp/mongodb_s3_backup/mydb_2026_11_3_17.tar.gz'',
      Logged ''info'' ''[info] Starting mongodump of mydb'',
      Spawn ''mongodump'' [''-h'', ''localhost:27017'', ''-d'', ''mydb'', ''-o'', ''/tmp/mongodb_s3_backup''] None,
      Logged ''error'' ''[error] connection refused'',
      Logged ''error'' ''[error] Error: Mongodump exited with code 1'',
      Called (Some (Error ''Mongodump exited with code 1''))]
   \<and> calls (out (sync
      (example_env (\<lambda>cmd. [StderrData ''connection refused'', Exit (Some 1)])
         (Inl (Error ''unused'')) (Inl (Error ''unused'')))
      \<lparr>host = ''localhost'', port = 27017, username = None, password = None, db = ''mydb''\<rparr>
      \<lparr>key = ''k'', secret = ''s'', bucket = ''b'', destination = None\<rparr>
      (Some report) (start []))) =
     [Some (Error ''Mongodump exited with code 1'')]
   \<and> out (sync
      (example_env (\<lambda>cmd. [StdoutData ''done'', Exit (Some 0)])
         (Inr \<lparr>statusCode = 200, events = [End]\<rparr>) (Inl (Error ''unused'')))
      \<lparr>host = ''localhost'', port = 27017, username = Some ''u'', password = Some ''p'', db = ''mydb''\<rparr>
      \<lparr>key = ''k'', secret = ''s'', bucket = ''b'', destination = Some ''backups''\<rparr>
      (Some report) (start [''/tmp/mongodb_s3_backup/mydb''])) =
     [FsExists ''/tmp/mongodb_s3_backup/mydb'',
      Logged ''warn'' ''[warn] Removing /tmp/mongodb_s3_backup/mydb'',
      Exec ''rm -rf /tmp/mongodb_s3_backup/mydb'',
      FsExists ''/tmp/mongodb_s3_backup/mydb_2026_11_3_17.tar.gz'',
      Logged ''info'' ''[info] Starting mongodump of mydb'',
      Spawn ''mongodump''
        [''-h'', ''localhost:27017'', ''-d'', ''mydb'', ''-o'', ''/tmp/mongodb_s3_backup'', ''-u'', ''u'', ''-p'', ''p'']
        None,
      Logged ''info'' ''[info] done'',
      Logged ''info'' ''[info] mongodump executed successfully'',
      Logged ''info'' ''[info] Starting compression of mydb into mydb_2026_11_3_17.tar.gz'',
      Spawn ''tar'' [''-zcf'', ''mydb_2026_11_3_17.tar.gz'', ''mydb''] (Some ''/tmp/mongodb_s3_backup''),
      Logged ''info'' ''[info] successfully compress directory'',
      Logged ''info'' ''[info] Attemping to upload mydb_2026_11_3_17.tar.gz to the b s3 bucket'',
      PutFile (KnoxClient ''k'' ''s'' ''b'') ''/tmp/mongodb_s3_backup/mydb_2026_11_3_17.tar.gz''
        ''backups/mydb_2026_11_3_17.tar.gz'',
      Logged ''info'' ''[info] Successfully uploaded to s3'',
      Logged ''info'' ''[info] Successfully backed up mydb'',
      Called None]"
proof -
  let ?env = "example_env (\<lambda>cmd. [StderrData ''connection refused'', Exit (Some 1)])
         (Inl (Error ''unused'')) (Inl (Error ''unused''))"
  let ?cfg = "\<lparr>host = ''localhost'', port = 27017, username = None, password = None, db = ''mydb''\<rparr>"
  let ?s3 = "\<lparr>key = ''k'', secret = ''s'', bucket = ''b'', destination = None\<rparr>"
  let ?s = "start ([] :: string list)"
  let ?tmp = "path_join ?env (os_tmpDir ?env) ''mongodb_s3_backup''"
  let ?bd = "path_join ?env ?tmp (db ?cfg)"
  let ?an = "getArchiveName (now ?env (world ?s)) (db ?cfg)"
  let ?ap = "path_join ?env ?tmp ?an"
  let ?e = "Error ''Mongodump exited with code 1''"
  let ?o3 = "[FsExists ?bd, FsExists ?ap,
      log_line (''Starting mongodump of '' @ db ?cfg) (Tag ''info''),
      Spawn ''mongodump'' (mongoDumpOptions ?cfg ?tmp) None,
      log_line ''connection refused'' (Tag ''error'')]"
  have tmp: "?tmp = ''/tmp/mongodb_s3_backup''"
    by (simp add: example_env_def)
  have bd: "?bd = ''/tmp/mongodb_s3_backup/mydb''"
    by (simp add: example_env_def)
  have ap: "?ap = ''/tmp/mongodb_s3_backup/mydb_2026_11_3_17.tar.gz''"
    by (simp add: example_env_def getArchiveName_def number_string_small)
  have args: "mongoDumpOptions ?cfg ?tmp =
      [''-h'', ''localhost:27017'', ''-d'', ''mydb'', ''-o'', ''/tmp/mongodb_s3_backup'']"
    unfolding tmp by (simp add: mongoDumpOptions_def truthy_def number_string_small)
  have r1: "reports (removeRF ?env ?bd) (world ?s, out ?s) None ([], [FsExists ?bd])"
    using reports_removeRF_absent [of ?env ?bd "[]" "[]"]
    by (simp add: example_env_def start_def)
  have r2: "reports (removeRF ?env ?ap) ([], [FsExists ?bd]) None ([], [FsExists ?bd, FsExists ?ap])"
    using reports_removeRF_absent [of ?env ?ap "[]" "[FsExists ?bd]"]
    by (simp add: example_env_def)
  have sp: "child_spawn ?env ''mongodump'' (mongoDumpOptions ?cfg ?tmp) None [] =
      ([StderrData ''connection refused''] @ [Exit (Some 1)], [])"
    by (simp add: example_env_def)
  have ec: "exit_codes [StderrData ''connection refused''] = []"
    by (simp add: exit_codes_def)
  have r3: "reports (mongoDump ?env ?cfg ?tmp) ([], [FsExists ?bd, FsExists ?ap]) (Some ?e) ([], ?o3)"
    using reports_mongoDump [OF sp ec, of "[FsExists ?bd, FsExists ?ap]"]
    by (simp add: code_one)
  have p: "pipeline
      [removeRF ?env ?bd, removeRF ?env ?ap, mongoDump ?env ?cfg ?tmp,
       compressDirectory ?env ?tmp (db ?cfg) ?an, sendToS3 ?env ?s3 ?tmp ?an]
      (world ?s, out ?s) (Some ?e) ([], ?o3)"
    by (rule pipeline_next [OF r1 pipeline_next [OF r2 pipeline_failed [OF r3]]])
  note inst = backup_pipeline [of ?env ?cfg ?s ?s3 "Some ?e" "[]" ?o3 report, unfolded Let_def]
  obtain s' where s': "sync ?env ?cfg ?s3 (Some report) ?s = report (Some ?e) s'"
      "out s' = ?o3 @ [Logged ''error'' (strip_newline (''[error] '' @ error_string ?e))]"
    using inst [THEN conjunct1, rule_format, OF p] by auto
  have a: "out (sync ?env ?cfg ?s3 (Some report) ?s) =
     [FsExists ''/tmp/mongodb_s3_backup/mydb'',
      FsExists ''/tmp/mongodb_s3_backup/mydb_2026_11_3_17.tar.gz'',
      Logged ''info'' ''[info] Starting mongodump of mydb'',
      Spawn ''mongodump'' [''-h'', ''localhost:27017'', ''-d'', ''mydb'', ''-o'', ''/tmp/mongodb_s3_backup''] None,
      Logged ''error'' ''[error] connection refused'',
      Logged ''error'' ''[error] Error: Mongodump exited with code 1'',
      Called (Some (Error ''Mongodump exited with code 1''))]"
    unfolding s' report_effects effects_sel args bd ap
    by (simp add: log_line_levels strip_newline_plain)
  have h1: "\<forall>w. fs_exists ?env ?bd w \<longrightarrow> fst (child_exec ?env (''rm -rf '' @ ?bd) w) = None"
    by (simp add: example_env_def)
  have h2: "\<forall>w. fs_exists ?env ?ap w \<longrightarrow> fst (child_exec ?env (''rm -rf '' @ ?ap) w) = None"
    by (simp add: example_env_def)
  have h3: "\<forall>w. exit_codes (fst (child_spawn ?env ''mongodump'' (mongoDumpOptions ?cfg ?tmp) None w))
      = [Some 1]"
    by (simp add: example_env_def exit_codes_def)
  have "calls (out (sync ?env ?cfg ?s3 (Some report) ?s)) = calls (out ?s) @ [Some ?e]"
    using inst [THEN conjunct2, rule_format, OF conjI [OF h1 conjI [OF h2 h3]]] by (rule conjunct1)
  then have b: "calls (out (sync ?env ?cfg ?s3 (Some report) ?s)) = [Some ?e]"
    by (simp add: start_def calls_simps)
  have c: "out (sync
      (example_env (\<lambda>cmd. [StdoutData ''done'', Exit (Some 0)])
         (Inr \<lparr>statusCode = 200, events = [End]\<rparr>) (Inl (Error ''unused'')))
      \<lparr>host = ''localhost'', port = 27017, username = Some ''u'', password = Some ''p'', db = ''mydb''\<rparr>
      \<lparr>key = ''k'', secret = ''s'', bucket = ''b'', destination = Some ''backups''\<rparr>
      (Some report) (start [''/tmp/mongodb_s3_backup/mydb''])) =
     [FsExists ''/tmp/mongodb_s3_backup/mydb'',
      Logged ''warn'' ''[warn] Removing /tmp/mongodb_s3_backup/mydb'',
      Exec ''rm -rf /tmp/mongodb_s3_backup/mydb'',
      FsExists ''/tmp/mongodb_s3_backup/mydb_2026_11_3_17.tar.gz'',
      Logged ''info'' ''[info] Starting mongodump of mydb'',
      Spawn ''mongodump''
        [''-h'', ''localhost:27017'', ''-d'', ''mydb'', ''-o'', ''/tmp/mongodb_s3_backup'', ''-u'', ''u'', ''-p'', ''p'']
        None,
      Logged ''info'' ''[info] done'',
      Logged ''info'' ''[info] mongodump executed successfully'',
      Logged ''info'' ''[info] Starting compression of mydb into mydb_2026_11_3_17.tar.gz'',
      Spawn ''tar'' [''-zcf'', ''mydb_2026_11_3_17.tar.gz'', ''mydb''] (Some ''/tmp/mongodb_s3_backup''),
      Logged ''info'' ''[info] successfully compress directory'',
      Logged ''info'' ''[info] Attemping to upload mydb_2026_11_3_17.tar.gz to the b s3 bucket'',
      PutFile (KnoxClient ''k'' ''s'' ''b'') ''/tmp/mongodb_s3_backup/mydb_2026_11_3_17.tar.gz''
        ''backups/mydb_2026_11_3_17.tar.gz'',
      Logged ''info'' ''[info] Successfully uploaded to s3'',
      Logged ''info'' ''[info] Successfully backed up mydb'',
      Called None]"
    by (simp add: sync_unfold series_from_Cons armed_def removeRF_def mongoDump_def compressDirectory_def
        sendToS3_def mongoDumpOptions_def truthy_def getArchiveName_def Let_def or_noop_def
        example_env_def start_def effect_def log_def log_line_def tag_or_info_def report_def
        strip_newline_def number_string_def nat_string.simps digit_char_def
        del: series_from.simps(2))
  show ?thesis by (intro conjI a b c)
qed





lemma restore_unfold:
  "restoreFromS3 env cfg s3 remote (Some cb) s =
     series_from
       [removeRF env (path_join env (os_tmpDir env) ''mongodb_s3_backup''),
        getFromS3 env s3 remote (path_join env (path_join env (os_tmpDir env) ''mongodb_s3_backup'') remote),
        uncompressArchive env (path_join env (path_join env (os_tmpDir env) ''mongodb_s3_backup'') remote)
          (path_join env (os_tmpDir env) ''mongodb_s3_backup''),
        mongoRestore env cfg (path_join env (path_join env (os_tmpDir env) ''mongodb_s3_backup'') (db cfg))]
       (\<lambda>err s'. cb err
                (case err of
                   Some e \<Rightarrow> log (error_string e) (Tag ''error'') s'
                 | None \<Rightarrow> log (''Successfully Restored '' @ db cfg) NoTag s'))
       s"
  by (simp add: restoreFromS3_def series_def Let_def or_noop_def del: series_from.simps)


text \<open>
  Claim C2. A restore whose download is answered with status 404: the removal of the
  staging root finds nothing, the store delivers one chunk of the error document, the
  end of the response and the close of the saved file, and every child process exits
  with code 0. The download reports twice: the error
  \<open>Expected a 200 response from S3, got 404\<close> at the end of the response, which is the
  first call of the caller's callback, and success at the close of the file. The second
  report advances the sequence, so that after the download both \<open>tar -zxvf\<close> on the
  saved error document and \<open>mongorestore --drop\<close> are started.
\<close>

theorem restore_404_resumes:
  "take 1 (calls (out (restoreFromS3
      (example_env (\<lambda>cmd. [Exit (Some 0)]) (Inl (Error ''unused''))
         (Inr \<lparr>statusCode = 404, events = [Res (Data ''NoSuchKey''), MkdirDone None, Res End, FileClose]\<rparr>))
      \<lparr>host = ''localhost'', port = 27017, username = None, password = None, db = ''mydb''\<rparr>
      \<lparr>key = ''k'', secret = ''s'', bucket = ''b'', destination = None\<rparr>
      ''dump.tar.gz'' (Some report) (start ([] :: string list))))) =
     [Some (Error ''Expected a 200 response from S3, got 404'')]
   \<and> launches (out (restoreFromS3
      (example_env (\<lambda>cmd. [Exit (Some 0)]) (Inl (Error ''unused''))
         (Inr \<lparr>statusCode = 404, events = [Res (Data ''NoSuchKey''), MkdirDone None, Res End, FileClose]\<rparr>))
      \<lparr>host = ''localhost'', port = 27017, username = None, password = None, db = ''mydb''\<rparr>
      \<lparr>key = ''k'', secret = ''s'', bucket = ''b'', destination = None\<rparr>
      ''dump.tar.gz'' (Some report) (start ([] :: string list)))) =
     [GetFile (KnoxClient ''k'' ''s'' ''b'') ''dump.tar.gz'',
      Spawn ''tar'' [''-zxvf'', ''/tmp/mongodb_s3_backup/dump.tar.gz''] (Some ''/tmp/mongodb_s3_backup''),
      Spawn ''mongorestore''
        [''-h'', ''localhost:27017'', ''-d'', ''mydb'', ''--drop'', ''/tmp/mongodb_s3_backup/mydb''] None]"
proof -
  let ?res = "\<lparr>statusCode = 404, events = [Res (Data ''NoSuchKey''), MkdirDone None, Res End, FileClose]\<rparr>"
  let ?env = "example_env (\<lambda>cmd. [Exit (Some 0)]) (Inl (Error ''unused'')) (Inr ?res)"
  let ?cfg = "\<lparr>host = ''localhost'', port = 27017, username = None, password = None, db = ''mydb''\<rparr>"
  let ?s3 = "\<lparr>key = ''k'', secret = ''s'', bucket = ''b'', destination = None\<rparr>"
  let ?s = "start ([] :: string list)"
  let ?R = "restoreFromS3 ?env ?cfg ?s3 ''dump.tar.gz'' (Some report) ?s"
  have a: "out ?R =
     [FsExists ''/tmp/mongodb_s3_backup'',
      Logged ''info'' ''[info] Attempting to download dump.tar.gz from  bucket b'',
      GetFile (KnoxClient ''k'' ''s'' ''b'') ''dump.tar.gz'',
      Logged ''404'' ''[404] Status '',
      Logged ''info'' ''[info] SAVING FILE to/tmp/mongodb_s3_backup/dump.tar.gz'',
      Mkdir ''/tmp/mongodb_s3_backup/'',
      CreateWriteStream ''/tmp/mongodb_s3_backup/dump.tar.gz'',
      Logged ''9'' ''[9] bytes received '',
      Logged ''error'' ''[error] Error: Expected a 200 response from S3, got 404'',
      Called (Some (Error ''Expected a 200 response from S3, got 404'')),
      Logged ''info'' ''[info] FILE FULLY WRITTEN TO DISK'',
      Logged ''info'' ''[info] Starting decompression of /tmp/mongodb_s3_backup/dump.tar.gz into /tmp/mongodb_s3_backup'',
      Spawn ''tar'' [''-zxvf'', ''/tmp/mongodb_s3_backup/dump.tar.gz''] (Some ''/tmp/mongodb_s3_backup''),
      Logged ''info'' ''[info] successfully uncompressed archive'',
      Logged ''info'' ''[info] Starting mongorestore of mydb'',
      Spawn ''mongorestore''
        [''-h'', ''localhost:27017'', ''-d'', ''mydb'', ''--drop'', ''/tmp/mongodb_s3_backup/mydb''] None,
      Logged ''info'' ''[info] mongorestore executed successfully'',
      Logged ''info'' ''[info] Successfully Restored mydb'',
      Called None]"
    by (simp add: restore_unfold series_from_Cons armed_def removeRF_def getFromS3_def
        uncompressArchive_def mongoRestore_def mongoRestoreOptions_def truthy_def Let_def or_noop_def
        example_env_def start_def effect_def log_def log_line_def tag_or_info_def report_def
        strip_newline_def number_string_def nat_string.simps digit_char_def
        del: series_from.simps(2))
  have b: "take 1 (calls (out ?R)) = [Some (Error ''Expected a 200 response from S3, got 404'')]"
    unfolding a by (simp add: calls_simps)
  have c: "launches (out ?R) =
     [GetFile (KnoxClient ''k'' ''s'' ''b'') ''dump.tar.gz'',
      Spawn ''tar'' [''-zxvf'', ''/tmp/mongodb_s3_backup/dump.tar.gz''] (Some ''/tmp/mongodb_s3_backup''),
      Spawn ''mongorestore''
        [''-h'', ''localhost:27017'', ''-d'', ''mydb'', ''--drop'', ''/tmp/mongodb_s3_backup/mydb''] None]"
    unfolding a by (simp add: launches_simps)
  show ?thesis by (intro conjI b c)
qed

section \<open>The arguments of the dump and of the restore\<close>

text \<open>
  Claim C4. The argument lists of the dump and of the restore are the six fixed
  arguments, followed by \<open>-u username -p password\<close> exactly when both the username and
  the password are truthy, and by nothing otherwise: with only one of the two set,
  neither credential flag is appended. These lists are the arguments with which
  mongoDump and mongoRestore spawn their child.
\<close>

theorem credential_flags:
  "take 6 (mongoDumpOptions opts dir) =
      [''-h'', host opts @ '':'' @ number_string (port opts), ''-d'', db opts, ''-o'', dir]
   \<and> drop 6 (mongoDumpOptions opts dir) =
      (if truthy (username opts) \<and> truthy (password opts)
       then [''-u'', the (username opts), ''-p'', the (password opts)] else [])
   \<and> take 6 (mongoRestoreOptions opts dir) =
      [''-h'', host opts @ '':'' @ number_string (port opts), ''-d'', db opts, ''--drop'', dir]
   \<and> drop 6 (mongoRestoreOptions opts dir) =
      (if truthy (username opts) \<and> truthy (password opts)
       then [''-u'', the (username opts), ''-p'', the (password opts)] else [])
   \<and> launches (out (mongoDump env opts dir (Some report) s)) =
      launches (out s) @ [Spawn ''mongodump'' (mongoDumpOptions opts dir) None]
   \<and> launches (out (mongoRestore env opts dir (Some report) s)) =
      launches (out s) @ [Spawn ''mongorestore'' (mongoRestoreOptions opts dir) None]"
proof -
  have q: "\<And>so name success evs. launches (concat (map (runner_trace so name success) evs)) = []"
  proof -
    fix so name success evs
    show "launches (concat (map (runner_trace so name success) evs)) = []"
    proof (induction evs)
      case Nil
      show ?case by (simp add: launches_simps)
    next
      case (Cons e evs)
      have "launches (runner_trace so name success e) = []"
        by (cases e) (simp_all add: launches_simps exit_trace_def)
      with Cons show ?case by (simp add: launches_append)
    qed
  qed
  have a: "launches (out (mongoDump env opts dir (Some report) s)) =
      launches (out s) @ [Spawn ''mongodump'' (mongoDumpOptions opts dir) None]"
    by (simp add: mongoDump_trace launches_append launches_simps q)
  have b: "launches (out (mongoRestore env opts dir (Some report) s)) =
      launches (out s) @ [Spawn ''mongorestore'' (mongoRestoreOptions opts dir) None]"
    by (simp add: mongoRestore_trace launches_append launches_simps q)
  show ?thesis
    using a b by (simp add: mongoDumpOptions_def mongoRestoreOptions_def Let_def)
qed

end
